theory Spec2Isabelle
  imports Main "HOL-Library.Word"
begin

section \<open>The Go library functions the gateway calls\<close>

text \<open>
  The gateway of \<^verbatim>\<open>Practicals/Web303_p2/api-gateway/main.go\<close> is one handler,
  \<^verbatim>\<open>routeRequest\<close>, and one helper, \<^verbatim>\<open>discoverService\<close>. Both are
  straight-line code over Go's \<^verbatim>\<open>strings\<close>, \<^verbatim>\<open>fmt\<close>, \<^verbatim>\<open>log\<close>,
  \<^verbatim>\<open>net/http\<close> packages and the Consul client. The library functions are written
  out here as far as the handler uses them; a Go \<^verbatim>\<open>string\<close> is a byte sequence,
  hence a \<^typ>\<open>string\<close>.
\<close>

subsection \<open>Package strings\<close>

definition HasPrefix :: "string \<Rightarrow> string \<Rightarrow> bool" where
  "HasPrefix s p = (length p \<le> length s \<and> take (length p) s = p)"

definition TrimPrefix :: "string \<Rightarrow> string \<Rightarrow> string" where
  "TrimPrefix s p = (if HasPrefix s p then drop (length p) s else s)"

text \<open>
  \<^verbatim>\<open>strings.Split(s, sep)\<close> for a separator of one byte, which is the only use in
  the source (\<^verbatim>\<open>"/"\<close>). The scan keeps the piece read so far in \<open>cur\<close> and
  closes it at every separator, so that \<open>n\<close> separators give \<open>n + 1\<close> pieces and
  the empty string gives the one piece \<open>''''\<close>.
\<close>

fun Split_from :: "string \<Rightarrow> string \<Rightarrow> char \<Rightarrow> string list" where
  "Split_from cur [] sep = [cur]"
| "Split_from cur (c # s) sep =
     (if c = sep then cur # Split_from [] s sep else Split_from (cur @ [c]) s sep)"

definition Split :: "string \<Rightarrow> char \<Rightarrow> string list" where
  "Split s sep = Split_from [] s sep"

fun Join :: "string list \<Rightarrow> string \<Rightarrow> string" where
  "Join [] sep = []"
| "Join [x] sep = x"
| "Join (x # y # ys) sep = x @ sep @ Join (y # ys) sep"

fun Contains :: "string \<Rightarrow> string \<Rightarrow> bool" where
  "Contains [] sub = (sub = [])"
| "Contains (c # s) sub = (HasPrefix (c # s) sub \<or> Contains s sub)"

subsection \<open>Package fmt: the verb \<^verbatim>\<open>%d\<close>\<close>

definition digit :: "nat \<Rightarrow> char" where
  "digit n = ''0123456789'' ! n"

fun digits :: "nat \<Rightarrow> string" where
  "digits n = (if n < 10 then [digit n] else digits (n div 10) @ [digit (n mod 10)])"

definition itoa :: "int \<Rightarrow> string" where
  "itoa i = (if i < 0 then ''-'' @ digits (nat (- i)) else digits (nat i))"

definition quote :: string where
  "quote = [CHR 0x27]"

subsection \<open>HTTP messages\<close>

text \<open>
  Of \<^verbatim>\<open>*http.Request\<close> the model keeps the method, \<^verbatim>\<open>URL.Path\<close>,
  \<^verbatim>\<open>URL.RawQuery\<close>, the header and the body; of what is written to the
  \<^verbatim>\<open>http.ResponseWriter\<close> the status code, the header set by the handler and the
  body.
\<close>

record request =
  req_method :: string
  url_path :: string
  raw_query :: string
  req_header :: "(string \<times> string list) list"
  req_body :: string

record response =
  resp_status :: int
  resp_header :: "(string \<times> string list) list"
  resp_body :: string

text \<open>
  \<^verbatim>\<open>http.Error(w, msg, code)\<close> sets the two headers below, writes the status code
  and prints the message followed by a line feed.
\<close>

definition http_Error :: "string \<Rightarrow> int \<Rightarrow> response" where
  "http_Error msg code =
     \<lparr>resp_status = code,
      resp_header = [(''Content-Type'', [''text/plain; charset=utf-8'']),
                     (''X-Content-Type-Options'', [''nosniff''])],
      resp_body = msg @ [CHR 0x0A]\<rparr>"

definition StatusBadRequest :: int where "StatusBadRequest = 400"
definition StatusUnauthorized :: int where "StatusUnauthorized = 401"
definition StatusForbidden :: int where "StatusForbidden = 403"
definition StatusNotFound :: int where "StatusNotFound = 404"
definition StatusConflict :: int where "StatusConflict = 409"
definition StatusPreconditionFailed :: int where "StatusPreconditionFailed = 412"
definition StatusInternalServerError :: int where "StatusInternalServerError = 500"
definition StatusNotImplemented :: int where "StatusNotImplemented = 501"
definition StatusBadGateway :: int where "StatusBadGateway = 502"
definition StatusServiceUnavailable :: int where "StatusServiceUnavailable = 503"

section \<open>Path parsing\<close>

text \<open>
  Lines 37 to 42 and 58 of \<^verbatim>\<open>routeRequest\<close>: the path loses one leading slash, is
  split at every slash, and is refused unless it has three pieces or more, the first of
  them \<^verbatim>\<open>api\<close>. The service name is the second piece with \<^verbatim>\<open>-service\<close>
  appended; the path sent on is a slash followed by the remaining pieces joined by
  slashes. Go evaluates \<^verbatim>\<open>pathParts[0]\<close> only when the length test has failed;
  here the disjunction is true on a short list whatever \<open>pathParts ! 0\<close> is.
\<close>

datatype route_error = MalformedPath

definition parse :: "string \<Rightarrow> route_error + (string \<times> string)" where
  "parse path =
     (let pathParts = Split (TrimPrefix path ''/'') (CHR ''/'')
      in if length pathParts < 3 \<or> pathParts ! 0 \<noteq> ''api'' then Inl MalformedPath
         else Inr (pathParts ! 1 @ ''-service'', ''/'' @ Join (drop 2 pathParts) ''/''))"

section \<open>The world outside the gateway\<close>

text \<open>
  What the handler does besides computing is recorded as a list of events, in the order
  of the calls: a line given to \<^verbatim>\<open>log.Printf\<close>, a health query sent to Consul,
  a request handed to the reverse proxy.
\<close>

datatype 'u event =
    LogPrintf string
  | ConsulHealthService string string bool
  | ProxyServeHTTP 'u request

fun is_query :: "'u event \<Rightarrow> bool" where
  "is_query (ConsulHealthService name tag passingOnly) = True"
| "is_query e = False"

fun is_forward :: "'u event \<Rightarrow> bool" where
  "is_forward (ProxyServeHTTP target r) = True"
| "is_forward e = False"

fun log_lines :: "'u event list \<Rightarrow> string list" where
  "log_lines [] = []"
| "log_lines (LogPrintf l # es) = l # log_lines es"
| "log_lines (e # es) = log_lines es"

fun mentions :: "string list \<Rightarrow> string \<Rightarrow> bool" where
  "mentions [] sub = False"
| "mentions (l # ls) sub = (Contains l sub \<or> mentions ls sub)"

text \<open>
  Consul, the URL parser and the backends are not part of the repository; the gateway
  reaches them through \<^verbatim>\<open>consulapi\<close>, \<^verbatim>\<open>net/url\<close> and
  \<^verbatim>\<open>httputil.ReverseProxy\<close>. They are the environment of the model:
  \<^item> \<open>consul_client_err\<close>: the error of \<^verbatim>\<open>consulapi.NewClient\<close>, if any;
  \<^item> \<open>consul_query_err\<close>: the error of the health query, if any (agent unreachable);
  \<^item> \<open>catalog\<close>: the service instances registered in Consul, in the order in which
    Consul lists them, each with the state of its health check (the spec's ServiceRecord);
  \<^item> \<open>url_Parse\<close>, \<open>url_String\<close>: \<^verbatim>\<open>url.Parse\<close> and \<^verbatim>\<open>(*url.URL).String\<close>, over
    a type \<open>'u\<close> of parsed URLs;
  \<^item> \<open>round_trip\<close>: what the proxy's transport gets when it sends a request to the
    backend at a target: a transport error, or the backend's response;
  \<^item> \<open>copy_header\<close>: the header the proxy writes to the caller for the header of a
    backend's response (the library leaves out the hop-by-hop fields).
\<close>

record service_entry =
  svc_name :: string
  svc_tags :: "string list"
  svc_address :: string
  svc_port :: int
  passing :: bool

record 'u env =
  consul_client_err :: "string option"
  consul_query_err :: "string option"
  catalog :: "service_entry list"
  url_Parse :: "string \<Rightarrow> string + 'u"
  url_String :: "'u \<Rightarrow> string"
  round_trip :: "'u \<Rightarrow> request \<Rightarrow> string + response"
  copy_header :: "(string \<times> string list) list \<Rightarrow> (string \<times> string list) list"

text \<open>
  \<^verbatim>\<open>client.Health().Service(service, tag, passingOnly, nil)\<close>: the instances of the
  service, with the tag unless the tag is empty, and only those whose checks pass when
  \<open>passingOnly\<close> is set.
\<close>

definition health_Service ::
  "'u env \<Rightarrow> string \<Rightarrow> string \<Rightarrow> bool \<Rightarrow> string + service_entry list" where
  "health_Service env service tag passingOnly =
     (case consul_query_err env of
        Some e \<Rightarrow> Inl e
      | None \<Rightarrow>
          Inr (filter (\<lambda>i. svc_name i = service \<and> (tag = [] \<or> tag \<in> set (svc_tags i))
                            \<and> (passing i \<or> \<not> passingOnly))
                 (catalog env)))"

text \<open>
  \<^verbatim>\<open>(*ReverseProxy).ServeHTTP\<close> of a proxy made by
  \<^verbatim>\<open>NewSingleHostReverseProxy(target)\<close>: one round trip to the backend; a transport
  error goes to the default error handler, which logs it and answers 502; a response of
  the backend is written to the caller with its status code and body, and with its
  header as \<open>copy_header\<close> gives it. The proxy does not look at the status code of
  an ordinary response. An exchange that ends in a protocol switch (status 101), where
  the library takes over the connection, is not described: \<open>round_trip\<close> stands
  for exchanges that end in an ordinary response or in a transport error.
\<close>

definition ServeHTTP :: "'u env \<Rightarrow> 'u \<Rightarrow> request \<Rightarrow> response \<times> 'u event list" where
  "ServeHTTP env target r =
     (case round_trip env target r of
        Inl err \<Rightarrow>
          (\<lparr>resp_status = StatusBadGateway, resp_header = [], resp_body = []\<rparr>,
           [LogPrintf (''http: proxy error: '' @ err)])
      | Inr res \<Rightarrow> (res\<lparr>resp_header := copy_header env (resp_header res)\<rparr>, []))"

section \<open>Service discovery\<close>

text \<open>
  \<^verbatim>\<open>discoverService\<close>, lines 67 to 88 (lines 64 and 65 of the file are a stray
  second header of the same function). Each \<^verbatim>\<open>return nil, fmt.Errorf(...)\<close> is an
  error value; \<open>error_string\<close> is the text that \<^verbatim>\<open>%v\<close> prints for it.
\<close>

datatype discover_error =
    ConsulClientError string
  | ConsulQueryFailed string string
  | NoHealthyInstances string
  | UrlParseError string

fun error_string :: "discover_error \<Rightarrow> string" where
  "error_string (ConsulClientError e) = ''consul client error: '' @ e"
| "error_string (ConsulQueryFailed name e) =
     ''consul query failed for '' @ quote @ name @ quote @ '': '' @ e"
| "error_string (NoHealthyInstances name) =
     ''no healthy instances available for '' @ quote @ name @ quote"
| "error_string (UrlParseError e) = e"

text \<open>\<^verbatim>\<open>fmt.Sprintf("http://%s:%d", instance.Address, instance.Port)\<close>.\<close>

definition endpoint_of :: "service_entry \<Rightarrow> string" where
  "endpoint_of instance =
     ''http://'' @ svc_address instance @ '':'' @ itoa (svc_port instance)"

definition discoverService ::
  "'u env \<Rightarrow> string \<Rightarrow> (discover_error + 'u) \<times> 'u event list" where
  "discoverService env serviceName =
     (case consul_client_err env of
        Some e \<Rightarrow> (Inl (ConsulClientError e), [])
      | None \<Rightarrow>
          (case health_Service env serviceName [] True of
             Inl e \<Rightarrow>
               (Inl (ConsulQueryFailed serviceName e), [ConsulHealthService serviceName [] True])
           | Inr healthyInstances \<Rightarrow>
               if length healthyInstances = 0
               then (Inl (NoHealthyInstances serviceName),
                     [ConsulHealthService serviceName [] True])
               else
                 let instance = healthyInstances ! 0;
                     endpoint = endpoint_of instance
                 in (case url_Parse env endpoint of
                       Inl e \<Rightarrow> Inl (UrlParseError e)
                     | Inr u \<Rightarrow> Inr u,
                     [ConsulHealthService serviceName [] True])))"

section \<open>The handler\<close>

text \<open>
  \<^verbatim>\<open>routeRequest\<close>, lines 33 to 62. The result is the response written and the
  events of the call. The handler has three exits: \<^verbatim>\<open>http.Error\<close> with 400,
  \<^verbatim>\<open>http.Error\<close> with 503, and the reverse proxy. The only assignment to the
  request is \<^verbatim>\<open>r.URL.Path = ...\<close> in line 58.
\<close>

definition routeRequest :: "'u env \<Rightarrow> request \<Rightarrow> response \<times> 'u event list" where
  "routeRequest env r =
     (let incoming = [LogPrintf (''Incoming request: '' @ req_method r @ '' '' @ url_path r)];
          pathParts = Split (TrimPrefix (url_path r) ''/'') (CHR ''/'')
      in if length pathParts < 3 \<or> pathParts ! 0 \<noteq> ''api''
         then (http_Error ''Invalid path format'' StatusBadRequest, incoming)
         else
           let serviceName = pathParts ! 1 @ ''-service'';
               found = discoverService env serviceName
           in (case fst found of
                 Inl err \<Rightarrow>
                   (http_Error ''Service not available'' StatusServiceUnavailable,
                    incoming @ snd found
                    @ [LogPrintf (''Service discovery failed for '' @ quote @ serviceName
                                  @ quote @ '': '' @ error_string err)])
               | Inr targetURL \<Rightarrow>
                   let r' = r\<lparr>url_path := ''/'' @ Join (drop 2 pathParts) ''/''\<rparr>;
                       served = ServeHTTP env targetURL r'
                   in (fst served,
                       incoming @ snd found
                       @ [LogPrintf (''Located service at: '' @ url_String env targetURL),
                          LogPrintf (''Proxying to: '' @ url_String env targetURL
                                     @ url_path r'),
                          ProxyServeHTTP targetURL r']
                       @ snd served)))"

section \<open>The handler on request objects\<close>

text \<open>
  The handler gets a pointer, \<^verbatim>\<open>r *http.Request\<close>, and line 58 writes
  \<^verbatim>\<open>r.URL.Path\<close> through it; \<^verbatim>\<open>log.Printf\<close> writes to the process's log; Consul
  and the backends are read. The definitions below are the same code with all of this
  explicit. A world holds the environment, the request objects by address, and the
  events so far. The server of \<^verbatim>\<open>main\<close> (lines 18 to 24) makes a request object
  for each inbound request and calls the handler on it. A call on an address that holds
  no request has no result (in Go a nil pointer panics).
\<close>

record 'u world =
  outside :: "'u env"
  requests :: "nat \<Rightarrow> request option"
  trace :: "'u event list"

definition log_Printf :: "string \<Rightarrow> 'u world \<Rightarrow> 'u world" where
  "log_Printf line w = w\<lparr>trace := trace w @ [LogPrintf line]\<rparr>"

definition discoverService_st ::
  "string \<Rightarrow> 'u world \<Rightarrow> (discover_error + 'u) \<times> 'u world" where
  "discoverService_st serviceName w =
     (case consul_client_err (outside w) of
        Some e \<Rightarrow> (Inl (ConsulClientError e), w)
      | None \<Rightarrow>
          let w1 = w\<lparr>trace := trace w @ [ConsulHealthService serviceName [] True]\<rparr>
          in (case health_Service (outside w) serviceName [] True of
                Inl e \<Rightarrow> (Inl (ConsulQueryFailed serviceName e), w1)
              | Inr healthyInstances \<Rightarrow>
                  if length healthyInstances = 0
                  then (Inl (NoHealthyInstances serviceName), w1)
                  else
                    let instance = healthyInstances ! 0;
                        endpoint = endpoint_of instance
                    in (case url_Parse (outside w) endpoint of
                          Inl e \<Rightarrow> Inl (UrlParseError e)
                        | Inr u \<Rightarrow> Inr u,
                        w1)))"

definition ServeHTTP_st ::
  "'u \<Rightarrow> nat \<Rightarrow> 'u world \<Rightarrow> (response \<times> 'u world) option" where
  "ServeHTTP_st target p w =
     (case requests w p of
        None \<Rightarrow> None
      | Some r \<Rightarrow>
          let w1 = w\<lparr>trace := trace w @ [ProxyServeHTTP target r]\<rparr>
          in (case round_trip (outside w) target r of
                Inl err \<Rightarrow>
                  Some (\<lparr>resp_status = StatusBadGateway, resp_header = [], resp_body = []\<rparr>,
                        log_Printf (''http: proxy error: '' @ err) w1)
              | Inr res \<Rightarrow>
                  Some (res\<lparr>resp_header := copy_header (outside w) (resp_header res)\<rparr>,
                        w1)))"

definition routeRequest_st :: "nat \<Rightarrow> 'u world \<Rightarrow> (response \<times> 'u world) option" where
  "routeRequest_st p w =
     (case requests w p of
        None \<Rightarrow> None
      | Some r \<Rightarrow>
          let w1 = log_Printf (''Incoming request: '' @ req_method r @ '' '' @ url_path r) w;
              pathParts = Split (TrimPrefix (url_path r) ''/'') (CHR ''/'')
          in if length pathParts < 3 \<or> pathParts ! 0 \<noteq> ''api''
             then Some (http_Error ''Invalid path format'' StatusBadRequest, w1)
             else
               let serviceName = pathParts ! 1 @ ''-service'';
                   found = discoverService_st serviceName w1
               in (case fst found of
                     Inl err \<Rightarrow>
                       Some (http_Error ''Service not available'' StatusServiceUnavailable,
                             log_Printf (''Service discovery failed for '' @ quote
                                         @ serviceName @ quote @ '': '' @ error_string err)
                               (snd found))
                   | Inr targetURL \<Rightarrow>
                       let w2 = log_Printf (''Located service at: ''
                                            @ url_String (outside w) targetURL) (snd found);
                           path' = ''/'' @ Join (drop 2 pathParts) ''/'';
                           w3 = w2\<lparr>requests := (requests w2)(p \<mapsto> r\<lparr>url_path := path'\<rparr>)\<rparr>;
                           w4 = log_Printf (''Proxying to: ''
                                            @ url_String (outside w) targetURL @ path') w3
                       in ServeHTTP_st targetURL p w4))"

text \<open>
  The server handling the inbound requests at the addresses \<open>ps\<close> one after
  another, each call in the world the calls before it have left.
\<close>

fun serve :: "nat list \<Rightarrow> 'u world \<Rightarrow> (response list \<times> 'u world) option" where
  "serve [] w = Some ([], w)"
| "serve (p # ps) w =
     (case routeRequest_st p w of
        None \<Rightarrow> None
      | Some done \<Rightarrow>
          (case serve ps (snd done) of
             None \<Rightarrow> None
           | Some rest \<Rightarrow> Some (fst done # fst rest, snd rest)))"

text \<open>
  The healthy set of a service name: the registered instances of that name whose check
  passes, in the catalog's order.
\<close>

definition healthy_set :: "'u env \<Rightarrow> string \<Rightarrow> service_entry list" where
  "healthy_set env name = filter (\<lambda>i. svc_name i = name \<and> passing i) (catalog env)"

text \<open>Where the calls of the reverse proxy went: target and path, in order.\<close>

fun forward_targets :: "'u event list \<Rightarrow> ('u \<times> string) list" where
  "forward_targets [] = []"
| "forward_targets (ProxyServeHTTP target r # es) = (target, url_path r) # forward_targets es"
| "forward_targets (e # es) = forward_targets es"

section \<open>The gRPC error translator of the p6 gateway\<close>

text \<open>
  \<^verbatim>\<open>handleGRPCError\<close> of
  \<^verbatim>\<open>Practicals/Web303_p6/api-gateway/handlers/handlers.go\<close>, lines 23 to 55.
  \<^verbatim>\<open>codes.Code\<close> is a \<^verbatim>\<open>uint32\<close>; the constants are those of
  \<^verbatim>\<open>google.golang.org/grpc/codes\<close>. An error is \<^verbatim>\<open>nil\<close>, a gRPC status error
  (an error from which \<^verbatim>\<open>status.FromError\<close> extracts a status) with the code and
  message of that status, or any other error with its text.
  \<^verbatim>\<open>status.FromError\<close> gives a nil status and \<^verbatim>\<open>true\<close> for \<^verbatim>\<open>nil\<close>
  (the nil status has code \<^verbatim>\<open>OK\<close> and the empty message), the status and
  \<^verbatim>\<open>true\<close> for a status error, and a status of code \<^verbatim>\<open>Unknown\<close> with
  \<^verbatim>\<open>false\<close> for any other error.
\<close>

type_synonym Code = "32 word"

definition codes_OK :: Code where "codes_OK = 0"
definition codes_Canceled :: Code where "codes_Canceled = 1"
definition codes_Unknown :: Code where "codes_Unknown = 2"
definition codes_InvalidArgument :: Code where "codes_InvalidArgument = 3"
definition codes_DeadlineExceeded :: Code where "codes_DeadlineExceeded = 4"
definition codes_NotFound :: Code where "codes_NotFound = 5"
definition codes_AlreadyExists :: Code where "codes_AlreadyExists = 6"
definition codes_PermissionDenied :: Code where "codes_PermissionDenied = 7"
definition codes_ResourceExhausted :: Code where "codes_ResourceExhausted = 8"
definition codes_FailedPrecondition :: Code where "codes_FailedPrecondition = 9"
definition codes_Aborted :: Code where "codes_Aborted = 10"
definition codes_OutOfRange :: Code where "codes_OutOfRange = 11"
definition codes_Unimplemented :: Code where "codes_Unimplemented = 12"
definition codes_Internal :: Code where "codes_Internal = 13"
definition codes_Unavailable :: Code where "codes_Unavailable = 14"
definition codes_DataLoss :: Code where "codes_DataLoss = 15"
definition codes_Unauthenticated :: Code where "codes_Unauthenticated = 16"

datatype go_error = nil_error | grpc_error Code string | other_error string

record Status =
  st_code :: Code
  st_message :: string

fun FromError :: "go_error \<Rightarrow> Status \<times> bool" where
  "FromError nil_error = (\<lparr>st_code = codes_OK, st_message = []\<rparr>, True)"
| "FromError (grpc_error c m) = (\<lparr>st_code = c, st_message = m\<rparr>, True)"
| "FromError (other_error s) = (\<lparr>st_code = codes_Unknown, st_message = s\<rparr>, False)"

definition handleGRPCError :: "go_error \<Rightarrow> response" where
  "handleGRPCError err =
     (let st = fst (FromError err); ok = snd (FromError err)
      in if \<not> ok then http_Error ''internal server error'' StatusInternalServerError
         else
           let httpStatus =
                 (if st_code st = codes_NotFound then StatusNotFound
                  else if st_code st = codes_InvalidArgument then StatusBadRequest
                  else if st_code st = codes_AlreadyExists then StatusConflict
                  else if st_code st = codes_PermissionDenied then StatusForbidden
                  else if st_code st = codes_Unauthenticated then StatusUnauthorized
                  else if st_code st = codes_FailedPrecondition then StatusPreconditionFailed
                  else if st_code st = codes_Unimplemented then StatusNotImplemented
                  else if st_code st = codes_Unavailable then StatusServiceUnavailable
                  else StatusInternalServerError)
           in http_Error (st_message st) httpStatus)"

section \<open>Concrete environments and requests\<close>

text \<open>
  Small worlds on which the theorems below are run. URLs are kept as the strings they
  were parsed from, and every endpoint string parses.
\<close>

definition users_entry :: service_entry where
  "users_entry =
     \<lparr>svc_name = ''users-service'', svc_tags = [], svc_address = ''node1'',
      svc_port = 8081, passing = True\<rparr>"

definition sick_entry :: service_entry where
  "sick_entry =
     \<lparr>svc_name = ''users-service'', svc_tags = [], svc_address = ''node0'',
      svc_port = 8081, passing = False\<rparr>"

definition dash_entry :: service_entry where
  "dash_entry =
     \<lparr>svc_name = ''-service'', svc_tags = [], svc_address = ''node2'',
      svc_port = 9000, passing = True\<rparr>"

definition spare_entry :: service_entry where
  "spare_entry =
     \<lparr>svc_name = ''users-service'', svc_tags = [], svc_address = ''node3'',
      svc_port = 8081, passing = True\<rparr>"

definition ok_response :: response where
  "ok_response = \<lparr>resp_status = 200, resp_header = [], resp_body = ''ok''\<rparr>"

definition boom_response :: response where
  "boom_response =
     \<lparr>resp_status = 500,
      resp_header = [(''Content-Type'', [''text/plain'']), (''Connection'', [''close''])],
      resp_body = ''boom''\<rparr>"

definition drop_hop_by_hop ::
  "(string \<times> string list) list \<Rightarrow> (string \<times> string list) list" where
  "drop_hop_by_hop h =
     filter (\<lambda>field. fst field \<notin> set [''Connection'', ''Proxy-Connection'', ''Keep-Alive'',
                 ''Proxy-Authenticate'', ''Proxy-Authorization'', ''Te'', ''Trailer'',
                 ''Transfer-Encoding'', ''Upgrade'']) h"

definition demo_env :: "string env" where
  "demo_env =
     \<lparr>consul_client_err = None, consul_query_err = None,
      catalog = [sick_entry, users_entry, spare_entry],
      url_Parse = Inr, url_String = (\<lambda>u. u),
      round_trip = (\<lambda>target r. Inr ok_response),
      copy_header = drop_hop_by_hop\<rparr>"

definition outage_env :: "string env" where
  "outage_env = demo_env\<lparr>consul_query_err := Some ''connection refused''\<rparr>"

definition failing_env :: "string env" where
  "failing_env = demo_env\<lparr>round_trip := (\<lambda>target r. Inr boom_response)\<rparr>"

definition dash_env :: "string env" where
  "dash_env = demo_env\<lparr>catalog := [dash_entry]\<rparr>"

definition get_request :: "string \<Rightarrow> request" where
  "get_request path =
     \<lparr>req_method = ''GET'', url_path = path, raw_query = [], req_header = [], req_body = []\<rparr>"

text \<open>
  A world with three inbound requests: two equal ones at the addresses 0 and 2, and a
  malformed one at 1.
\<close>

definition demo_world :: "string world" where
  "demo_world =
     \<lparr>outside = demo_env,
      requests = (\<lambda>p. if p = 0 \<or> p = 2 then Some (get_request ''/api/users/42'')
                      else if p = 1 then Some (get_request ''/bogus'') else None),
      trace = []\<rparr>"

definition post_request :: request where
  "post_request =
     \<lparr>req_method = ''POST'', url_path = ''/api/users/42'', raw_query = ''verbose=1'',
      req_header = [(''Content-Type'', [''application/json''])], req_body = ''{}''\<rparr>"

section \<open>Lemmas on splitting and joining\<close>

lemma Split_from_nonempty: "Split_from cur s sep \<noteq> []"
  by (induction s arbitrary: cur) auto

lemma Split_from_no_sep:
  "sep \<notin> set a \<Longrightarrow> Split_from cur (a @ s) sep = Split_from (cur @ a) s sep"
  by (induction a arbitrary: cur) auto

lemma Split_piece: "sep \<notin> set a \<Longrightarrow> Split (a @ sep # s) sep = a # Split s sep"
  using Split_from_no_sep [of sep a "[]" "sep # s"] by (simp add: Split_def)

lemma Join_Cons: "ps \<noteq> [] \<Longrightarrow> Join (p # ps) sep = p @ sep @ Join ps sep"
  by (cases ps) auto

lemma Join_Split_from: "Join (Split_from cur s sep) [sep] = cur @ s"
  by (induction s arbitrary: cur) (auto simp: Join_Cons Split_from_nonempty)

lemma Join_Split: "Join (Split s sep) [sep] = s"
  by (simp add: Split_def Join_Split_from)

lemma Split_from_pieces:
  "sep \<notin> set cur \<Longrightarrow> p \<in> set (Split_from cur s sep) \<Longrightarrow> sep \<notin> set p"
proof (induction s arbitrary: cur)
  case Nil
  then show ?case by simp
next
  case (Cons c s)
  show ?case
  proof (cases "c = sep")
    case True
    with Cons.prems have "p = cur \<or> p \<in> set (Split_from [] s sep)" by simp
    then show ?thesis using Cons.IH [of "[]"] Cons.prems(1) by auto
  next
    case False
    with Cons.prems have "p \<in> set (Split_from (cur @ [c]) s sep)" by simp
    moreover have "sep \<notin> set (cur @ [c])" using False Cons.prems(1) by auto
    ultimately show ?thesis by (rule Cons.IH [rotated])
  qed
qed

lemma Split_pieces: "p \<in> set (Split s sep) \<Longrightarrow> sep \<notin> set p"
  using Split_from_pieces [of sep "[]" p s] by (simp add: Split_def)

lemma TrimPrefix_slash: "TrimPrefix path ''/'' = t \<Longrightarrow> path = t \<or> path = ''/'' @ t"
  by (cases path) (auto simp: TrimPrefix_def HasPrefix_def split: if_splits)

lemma TrimPrefix_slash_api [simp]: "TrimPrefix (''/api/'' @ s) ''/'' = ''api/'' @ s"
  by (simp add: TrimPrefix_def HasPrefix_def)

lemma TrimPrefix_api [simp]: "TrimPrefix (''api/'' @ s) ''/'' = ''api/'' @ s"
  by (simp add: TrimPrefix_def HasPrefix_def)

lemma Split_api:
  assumes "CHR ''/'' \<notin> set svc"
  shows "Split (''api/'' @ svc @ ''/'' @ rest) (CHR ''/'') = ''api'' # svc # Split rest (CHR ''/'')"
proof -
  have "Split (''api'' @ CHR ''/'' # (svc @ CHR ''/'' # rest)) (CHR ''/'')
        = ''api'' # Split (svc @ CHR ''/'' # rest) (CHR ''/'')"
    by (rule Split_piece) simp
  also have "Split (svc @ CHR ''/'' # rest) (CHR ''/'') = svc # Split rest (CHR ''/'')"
    using assms by (rule Split_piece)
  finally show ?thesis by simp
qed

lemma Split_nonempty: "Split s sep \<noteq> []"
  by (simp add: Split_def Split_from_nonempty)

lemma parse_accepts:
  assumes "CHR ''/'' \<notin> set svc"
  shows "parse (''/api/'' @ svc @ ''/'' @ rest) = Inr (svc @ ''-service'', ''/'' @ rest)"
    and "parse (''api/'' @ svc @ ''/'' @ rest) = Inr (svc @ ''-service'', ''/'' @ rest)"
proof -
  have len: "\<not> length (''api'' # svc # Split rest (CHR ''/'')) < 3"
    using Split_nonempty [of rest "CHR ''/''"] by (cases "Split rest (CHR ''/'')") auto
  have j: "Join (Split rest (CHR ''/'')) ''/'' = rest"
    by (rule Join_Split)
  show "parse (''/api/'' @ svc @ ''/'' @ rest) = Inr (svc @ ''-service'', ''/'' @ rest)"
    unfolding parse_def TrimPrefix_slash_api Split_api [OF assms] Let_def
    using len j by simp
  show "parse (''api/'' @ svc @ ''/'' @ rest) = Inr (svc @ ''-service'', ''/'' @ rest)"
    unfolding parse_def TrimPrefix_api Split_api [OF assms] Let_def
    using len j by simp
qed

lemma parse_accepted_form:
  assumes "parse path \<noteq> Inl MalformedPath"
  shows "\<exists>svc rest. CHR ''/'' \<notin> set svc \<and>
           (path = ''/api/'' @ svc @ ''/'' @ rest \<or> path = ''api/'' @ svc @ ''/'' @ rest)"
proof -
  define t where "t = TrimPrefix path ''/''"
  define ps where "ps = Split t (CHR ''/'')"
  from assms have len: "3 \<le> length ps" and api: "ps ! 0 = ''api''"
    by (auto simp: parse_def Let_def ps_def t_def split: if_splits)
  then obtain svc qs where ps: "ps = ''api'' # svc # qs" and qs: "qs \<noteq> []"
    by (cases ps; cases "tl ps"; cases "tl (tl ps)") auto
  have "svc \<in> set (Split t (CHR ''/''))"
    using ps by (simp add: ps_def [symmetric])
  then have svc: "CHR ''/'' \<notin> set svc" by (rule Split_pieces)
  have "t = Join ps ''/''" unfolding ps_def by (simp add: Join_Split)
  also have "\<dots> = ''api/'' @ svc @ ''/'' @ Join qs ''/''"
    using qs by (simp add: ps Join_Cons)
  finally have "t = ''api/'' @ svc @ ''/'' @ Join qs ''/''" .
  with TrimPrefix_slash [of path t] have
    "path = ''/api/'' @ svc @ ''/'' @ Join qs ''/'' \<or> path = ''api/'' @ svc @ ''/'' @ Join qs ''/''"
    by (auto simp: t_def)
  with svc show ?thesis by blast
qed

section \<open>Lemmas on the handler\<close>

lemma routeRequest_malformed:
  assumes "parse (url_path r) = Inl MalformedPath"
  shows "routeRequest env r =
           (http_Error ''Invalid path format'' StatusBadRequest,
            [LogPrintf (''Incoming request: '' @ req_method r @ '' '' @ url_path r)])"
proof -
  from assms have "length (Split (TrimPrefix (url_path r) ''/'') (CHR ''/'')) < 3
      \<or> Split (TrimPrefix (url_path r) ''/'') (CHR ''/'') ! 0 \<noteq> ''api''"
    by (simp add: parse_def Let_def split: if_splits)
  then show ?thesis
    unfolding routeRequest_def Let_def by (rule if_P)
qed

lemma routeRequest_unavailable:
  assumes "parse (url_path r) = Inr (name, fwd)"
    and "fst (discoverService env name) = Inl err"
  shows "routeRequest env r =
           (http_Error ''Service not available'' StatusServiceUnavailable,
            [LogPrintf (''Incoming request: '' @ req_method r @ '' '' @ url_path r)]
            @ snd (discoverService env name)
            @ [LogPrintf (''Service discovery failed for '' @ quote @ name @ quote @ '': ''
                          @ error_string err)])"
  using assms by (auto simp: routeRequest_def parse_def Let_def split: if_splits)

lemma routeRequest_forward:
  assumes "parse (url_path r) = Inr (name, fwd)"
    and "fst (discoverService env name) = Inr target"
  shows "routeRequest env r =
           (fst (ServeHTTP env target (r\<lparr>url_path := fwd\<rparr>)),
            [LogPrintf (''Incoming request: '' @ req_method r @ '' '' @ url_path r)]
            @ snd (discoverService env name)
            @ [LogPrintf (''Located service at: '' @ url_String env target),
               LogPrintf (''Proxying to: '' @ url_String env target @ fwd),
               ProxyServeHTTP target (r\<lparr>url_path := fwd\<rparr>)]
            @ snd (ServeHTTP env target (r\<lparr>url_path := fwd\<rparr>)))"
  using assms by (auto simp: routeRequest_def parse_def Let_def split: if_splits)

lemma routeRequest_transport_error:
  assumes "parse (url_path r) = Inr (name, fwd)"
    and "fst (discoverService env name) = Inr target"
    and "round_trip env target (r\<lparr>url_path := fwd\<rparr>) = Inl e"
  shows "fst (routeRequest env r) = \<lparr>resp_status = 502, resp_header = [], resp_body = []\<rparr>"
  using assms(3)
  by (simp add: routeRequest_forward [OF assms(1,2)] ServeHTTP_def StatusBadGateway_def)

lemma parse_cases:
  obtains "parse path = Inl MalformedPath" | name fwd where "parse path = Inr (name, fwd)"
  by (cases "parse path") (auto intro: route_error.exhaust)

lemma health_Service_passing:
  "consul_query_err env = None \<Longrightarrow> health_Service env name [] True = Inr (healthy_set env name)"
  by (simp add: health_Service_def healthy_set_def)

lemma discoverService_events:
  "snd (discoverService env name) = [] \<or>
   snd (discoverService env name) = [ConsulHealthService name [] True]"
  by (simp add: discoverService_def Let_def split: option.splits sum.splits)

lemma ServeHTTP_events:
  "snd (ServeHTTP env target r) =
     (case round_trip env target r of Inl err \<Rightarrow> [LogPrintf (''http: proxy error: '' @ err)]
      | Inr res \<Rightarrow> [])"
  by (simp add: ServeHTTP_def split: sum.splits)

lemma discoverService_ok:
  assumes "consul_client_err env = None" and "consul_query_err env = None"
    and "healthy_set env name \<noteq> []"
    and "url_Parse env (endpoint_of (healthy_set env name ! 0)) = Inr u"
  shows "discoverService env name = (Inr u, [ConsulHealthService name [] True])"
  using assms by (simp add: discoverService_def health_Service_passing Let_def)

lemma discoverService_Inr:
  assumes "fst (discoverService env name) = Inr u"
  shows "consul_client_err env = None \<and> consul_query_err env = None
         \<and> healthy_set env name \<noteq> []
         \<and> url_Parse env (endpoint_of (healthy_set env name ! 0)) = Inr u"
  using assms
  by (auto simp: discoverService_def health_Service_def healthy_set_def Let_def
      split: option.splits sum.splits if_splits)

lemma discoverService_none_healthy:
  assumes "healthy_set env name = []"
  shows "\<exists>err. fst (discoverService env name) = Inl err"
  using assms
  by (auto simp: discoverService_def health_Service_def healthy_set_def Let_def
      split: option.splits sum.splits if_splits)

lemma healthy_set_first:
  assumes "healthy_set env name \<noteq> []"
  shows "healthy_set env name ! 0 \<in> set (catalog env)
         \<and> svc_name (healthy_set env name ! 0) = name \<and> passing (healthy_set env name ! 0)"
proof -
  have "healthy_set env name ! 0 \<in> set (healthy_set env name)"
    using assms by simp
  then show ?thesis by (simp add: healthy_set_def)
qed

section \<open>Lemmas on the events of a call\<close>

lemma log_lines_append: "log_lines (xs @ ys) = log_lines xs @ log_lines ys"
  by (induction xs rule: log_lines.induct) auto

lemma forward_targets_append:
  "forward_targets (xs @ ys) = forward_targets xs @ forward_targets ys"
  by (induction xs rule: forward_targets.induct) auto

lemma discoverService_log: "log_lines (snd (discoverService env name)) = []"
  using discoverService_events [of env name] by auto

lemma discoverService_no_forward: "filter is_forward (snd (discoverService env name)) = []"
  using discoverService_events [of env name] by auto

lemma discoverService_queries: "length (filter is_query (snd (discoverService env name))) \<le> 1"
  using discoverService_events [of env name] by auto

lemma discoverService_targets: "forward_targets (snd (discoverService env name)) = []"
  using discoverService_events [of env name] by auto

lemma ServeHTTP_no_query: "filter is_query (snd (ServeHTTP env target r)) = []"
  by (simp add: ServeHTTP_events split: sum.splits)

lemma ServeHTTP_no_forward: "filter is_forward (snd (ServeHTTP env target r)) = []"
  by (simp add: ServeHTTP_events split: sum.splits)

lemma ServeHTTP_targets: "forward_targets (snd (ServeHTTP env target r)) = []"
  by (simp add: ServeHTTP_events split: sum.splits)


lemma routeRequest_path_only:
  assumes "url_path r1 = url_path r2"
  shows "filter is_query (snd (routeRequest env r1)) = filter is_query (snd (routeRequest env r2))"
    and "forward_targets (snd (routeRequest env r1)) = forward_targets (snd (routeRequest env r2))"
proof -
  have "filter is_query (snd (routeRequest env r1)) = filter is_query (snd (routeRequest env r2))
    \<and> forward_targets (snd (routeRequest env r1)) = forward_targets (snd (routeRequest env r2))"
  proof (cases "url_path r2" rule: parse_cases)
    case 1
    with assms show ?thesis by (simp add: routeRequest_malformed)
  next
    case (2 n f)
    show ?thesis
    proof (cases "fst (discoverService env n)")
      case (Inl e)
      with 2 assms show ?thesis
        by (simp add: routeRequest_unavailable forward_targets_append)
    next
      case (Inr t)
      with 2 assms show ?thesis
        by (simp add: routeRequest_forward forward_targets_append ServeHTTP_no_query
            ServeHTTP_targets)
    qed
  qed
  then show "filter is_query (snd (routeRequest env r1)) = filter is_query (snd (routeRequest env r2))"
    and "forward_targets (snd (routeRequest env r1)) = forward_targets (snd (routeRequest env r2))"
    by simp_all
qed


lemma discoverService_not_forward:
  "ProxyServeHTTP target q \<notin> set (snd (discoverService env name))"
  using discoverService_events [of env name] by auto

lemma ServeHTTP_not_forward:
  "ProxyServeHTTP target q \<notin> set (snd (ServeHTTP env t r))"
  by (simp add: ServeHTTP_events split: sum.splits)

lemma forwarded_request:
  assumes "ProxyServeHTTP target r' \<in> set (snd (routeRequest env r))"
  shows "\<exists>name fwd. parse (url_path r) = Inr (name, fwd)
           \<and> fst (discoverService env name) = Inr target \<and> r' = r\<lparr>url_path := fwd\<rparr>"
proof (cases "url_path r" rule: parse_cases)
  case 1
  with assms show ?thesis by (simp add: routeRequest_malformed)
next
  case (2 n f)
  show ?thesis
  proof (cases "fst (discoverService env n)")
    case (Inl e)
    with 2 assms show ?thesis
      by (simp add: routeRequest_unavailable discoverService_not_forward)
  next
    case (Inr t)
    with 2 assms show ?thesis
      by (simp add: routeRequest_forward discoverService_not_forward ServeHTTP_not_forward)
  qed
qed


section \<open>Lemmas on the error translator\<close>

lemmas status_defs =
  StatusBadRequest_def StatusUnauthorized_def StatusForbidden_def StatusNotFound_def
  StatusConflict_def StatusPreconditionFailed_def StatusInternalServerError_def
  StatusNotImplemented_def StatusBadGateway_def StatusServiceUnavailable_def

lemmas code_defs =
  codes_OK_def codes_Canceled_def codes_Unknown_def codes_InvalidArgument_def
  codes_DeadlineExceeded_def codes_NotFound_def codes_AlreadyExists_def
  codes_PermissionDenied_def codes_ResourceExhausted_def codes_FailedPrecondition_def
  codes_Aborted_def codes_OutOfRange_def codes_Unimplemented_def codes_Internal_def
  codes_Unavailable_def codes_DataLoss_def codes_Unauthenticated_def

lemma handleGRPCError_grpc:
  "handleGRPCError (grpc_error c m) =
     http_Error m
       (if c = codes_NotFound then 404 else if c = codes_InvalidArgument then 400
        else if c = codes_AlreadyExists then 409 else if c = codes_PermissionDenied then 403
        else if c = codes_Unauthenticated then 401
        else if c = codes_FailedPrecondition then 412
        else if c = codes_Unimplemented then 501 else if c = codes_Unavailable then 503
        else 500)"
  by (simp add: handleGRPCError_def Let_def status_defs)

lemma handleGRPCError_other:
  "handleGRPCError (other_error s) = http_Error ''internal server error'' 500"
  by (simp add: handleGRPCError_def Let_def status_defs)

lemma handleGRPCError_nil: "handleGRPCError nil_error = http_Error [] 500"
  by (simp add: handleGRPCError_def Let_def status_defs code_defs)

lemma http_Error_fields:
  "resp_status (http_Error m code) = code" "resp_body (http_Error m code) = m @ [CHR 0x0A]"
  by (simp_all add: http_Error_def)


section \<open>Lemmas on the handler on request objects\<close>

lemma discoverService_st_eq:
  "discoverService_st name w =
     (fst (discoverService (outside w) name),
      w\<lparr>trace := trace w @ snd (discoverService (outside w) name)\<rparr>)"
  by (simp add: discoverService_st_def discoverService_def Let_def
      split: option.splits sum.splits)

lemma ServeHTTP_st_eq:
  assumes "requests w p = Some r"
  shows "ServeHTTP_st target p w =
           Some (fst (ServeHTTP (outside w) target r),
                 w\<lparr>trace := trace w @ [ProxyServeHTTP target r]
                              @ snd (ServeHTTP (outside w) target r)\<rparr>)"
  using assms
  by (simp add: ServeHTTP_st_def ServeHTTP_def log_Printf_def Let_def split: sum.splits)

lemma routeRequest_st_malformed:
  assumes "requests w p = Some r" and "parse (url_path r) = Inl MalformedPath"
  shows "routeRequest_st p w =
           Some (fst (routeRequest (outside w) r),
                 w\<lparr>trace := trace w @ snd (routeRequest (outside w) r)\<rparr>)"
proof -
  from assms(2) have bad: "length (Split (TrimPrefix (url_path r) ''/'') (CHR ''/'')) < 3
      \<or> Split (TrimPrefix (url_path r) ''/'') (CHR ''/'') ! 0 \<noteq> ''api''"
    by (simp add: parse_def Let_def split: if_splits)
  have "routeRequest_st p w =
          Some (http_Error ''Invalid path format'' StatusBadRequest,
                log_Printf (''Incoming request: '' @ req_method r @ '' '' @ url_path r) w)"
    unfolding routeRequest_st_def Let_def using assms(1) bad by simp
  then show ?thesis
    by (simp add: routeRequest_malformed [OF assms(2)] log_Printf_def)
qed

lemma parse_Inr_parts:
  assumes "parse path = Inr (name, fwd)"
  shows "\<not> (length (Split (TrimPrefix path ''/'') (CHR ''/'')) < 3
            \<or> Split (TrimPrefix path ''/'') (CHR ''/'') ! 0 \<noteq> ''api'')"
    and "Split (TrimPrefix path ''/'') (CHR ''/'') ! 1 @ ''-service'' = name"
    and "''/'' @ Join (drop 2 (Split (TrimPrefix path ''/'') (CHR ''/''))) ''/'' = fwd"
  using assms by (auto simp: parse_def Let_def split: if_splits)

lemma routeRequest_st_unavailable:
  assumes "requests w p = Some r" and "parse (url_path r) = Inr (name, fwd)"
    and "fst (discoverService (outside w) name) = Inl err"
  shows "routeRequest_st p w =
           Some (fst (routeRequest (outside w) r),
                 w\<lparr>trace := trace w @ snd (routeRequest (outside w) r)\<rparr>)"
proof -
  note parts = parse_Inr_parts [OF assms(2)]
  have "routeRequest_st p w =
          Some (http_Error ''Service not available'' StatusServiceUnavailable,
                log_Printf (''Service discovery failed for '' @ quote @ name @ quote @ '': ''
                            @ error_string err)
                  (snd (discoverService_st name
                     (log_Printf (''Incoming request: '' @ req_method r @ '' '' @ url_path r) w))))"
    unfolding routeRequest_st_def Let_def using assms(1,3) parts
    by (simp add: discoverService_st_eq log_Printf_def)
  then show ?thesis
    by (simp add: routeRequest_unavailable [OF assms(2,3)] discoverService_st_eq log_Printf_def)
qed

lemma routeRequest_st_forward:
  assumes "requests w p = Some r" and "parse (url_path r) = Inr (name, fwd)"
    and "fst (discoverService (outside w) name) = Inr target"
  shows "routeRequest_st p w =
           Some (fst (routeRequest (outside w) r),
                 w\<lparr>requests := (requests w)(p \<mapsto> r\<lparr>url_path := fwd\<rparr>),
                   trace := trace w @ snd (routeRequest (outside w) r)\<rparr>)"
proof -
  note parts = parse_Inr_parts [OF assms(2)]
  show ?thesis
    unfolding routeRequest_st_def Let_def using assms(1,3) parts
    by (simp add: routeRequest_forward [OF assms(2,3)] discoverService_st_eq log_Printf_def
        ServeHTTP_st_eq)
qed

lemma routeRequest_st_frame:
  assumes "requests w p = Some r"
  shows "\<exists>w'. routeRequest_st p w = Some (fst (routeRequest (outside w) r), w')
           \<and> outside w' = outside w
           \<and> (\<forall>q. q \<noteq> p \<longrightarrow> requests w' q = requests w q)
           \<and> requests w' p \<noteq> None"
proof (cases "url_path r" rule: parse_cases)
  case 1
  from routeRequest_st_malformed [OF assms 1] assms show ?thesis by simp
next
  case (2 name fwd)
  show ?thesis
  proof (cases "fst (discoverService (outside w) name)")
    case (Inl err)
    from routeRequest_st_unavailable [OF assms 2 Inl] assms show ?thesis by simp
  next
    case (Inr target)
    from routeRequest_st_forward [OF assms 2 Inr] show ?thesis by simp
  qed
qed

lemma serve_frame:
  assumes "distinct ps" and "\<forall>p\<in>set ps. requests w p \<noteq> None"
  shows "\<exists>w'. serve ps w =
                Some (map (\<lambda>p. fst (routeRequest (outside w) (the (requests w p)))) ps, w')
           \<and> outside w' = outside w
           \<and> (\<forall>q. q \<notin> set ps \<longrightarrow> requests w' q = requests w q)"
  using assms
proof (induction ps arbitrary: w)
  case Nil
  then show ?case by simp
next
  case (Cons p ps)
  from Cons.prems obtain r where r: "requests w p = Some r" by auto
  from routeRequest_st_frame [OF r] obtain w1 where
    step: "routeRequest_st p w = Some (fst (routeRequest (outside w) r), w1)"
    and out: "outside w1 = outside w"
    and same: "\<forall>q. q \<noteq> p \<longrightarrow> requests w1 q = requests w q"
    by blast
  from Cons.prems have notin: "p \<notin> set ps" and dist: "distinct ps" by simp_all
  from same notin have keep: "\<forall>q\<in>set ps. requests w1 q = requests w q" by auto
  with Cons.prems have alloc: "\<forall>q\<in>set ps. requests w1 q \<noteq> None" by simp
  from Cons.IH [OF dist alloc] obtain w2 where
    rest: "serve ps w1 =
             Some (map (\<lambda>q. fst (routeRequest (outside w1) (the (requests w1 q)))) ps, w2)"
    and out2: "outside w2 = outside w1"
    and same2: "\<forall>q. q \<notin> set ps \<longrightarrow> requests w2 q = requests w1 q"
    by blast
  have maps: "map (\<lambda>q. fst (routeRequest (outside w1) (the (requests w1 q)))) ps
      = map (\<lambda>q. fst (routeRequest (outside w) (the (requests w q)))) ps"
    using keep out by simp
  have "serve (p # ps) w =
          Some (map (\<lambda>q. fst (routeRequest (outside w) (the (requests w q)))) (p # ps), w2)"
    using step rest maps r by simp
  moreover have "outside w2 = outside w" using out out2 by simp
  moreover have "\<forall>q. q \<notin> set (p # ps) \<longrightarrow> requests w2 q = requests w q"
    using same same2 by simp
  ultimately show ?case by blast
qed

section \<open>The claims\<close>

text \<open>The definitions unfolded to run the model on a concrete request.\<close>

lemmas eval_defs =
  parse_def Split_def TrimPrefix_def HasPrefix_def Let_def get_request_def
  demo_env_def outage_env_def failing_env_def dash_env_def users_entry_def sick_entry_def
  dash_entry_def healthy_set_def discoverService_def health_Service_def endpoint_of_def
  itoa_def digit_def ServeHTTP_def ok_response_def boom_response_def spare_entry_def
  drop_hop_by_hop_def

subsection \<open>The model run on the concrete world\<close>

lemma parse_users42:
  "parse ''/api/users/42'' = Inr (''users-service'', ''/42'')"
  by (simp add: eval_defs)

lemma parse_orders7: "parse ''/api/orders/7'' = Inr (''orders-service'', ''/7'')"
  by (simp add: eval_defs)

lemma parse_bogus: "parse ''/bogus'' = Inl MalformedPath"
  by (simp add: eval_defs)

lemma demo_users: "discoverService demo_env ''users-service''
   = (Inr ''http://node1:8081'', [ConsulHealthService ''users-service'' [] True])"
  by (simp add: eval_defs)

lemma demo_healthy_users:
  "healthy_set demo_env ''users-service'' = [users_entry, spare_entry]"
  by (simp add: eval_defs)

lemma demo_healthy_orders: "healthy_set demo_env ''orders-service'' = []"
  by (simp add: eval_defs)


lemma failing_users: "discoverService failing_env ''users-service''
   = (Inr ''http://node1:8081'', [ConsulHealthService ''users-service'' [] True])"
  by (simp add: eval_defs)

lemma dash_found: "discoverService dash_env ''-service''
   = (Inr ''http://node2:9000'', [ConsulHealthService ''-service'' [] True])"
  by (simp add: eval_defs)

lemma parse_encoded_slash: "parse ''/api///x'' = Inr (''-service'', ''//x'')"
  by (simp add: eval_defs)


lemma outage_users: "discoverService outage_env ''users-service''
   = (Inl (ConsulQueryFailed ''users-service'' ''connection refused''),
      [ConsulHealthService ''users-service'' [] True])"
  by (simp add: eval_defs)


lemma demo_world_requests:
  "requests demo_world 0 = Some (get_request ''/api/users/42'')"
  "requests demo_world 1 = Some (get_request ''/bogus'')"
  "requests demo_world (Suc 0) = Some (get_request ''/bogus'')"
  "requests demo_world 2 = Some (get_request ''/api/users/42'')"
  "outside demo_world = demo_env"
  by (simp_all add: demo_world_def)

lemma demo_forward:
  "fst (routeRequest demo_env (get_request ''/api/users/42'')) = ok_response"
proof -
  have p: "parse (url_path (get_request ''/api/users/42'')) = Inr (''users-service'', ''/42'')"
    by (simp add: get_request_def parse_users42)
  have d: "fst (discoverService demo_env ''users-service'') = Inr ''http://node1:8081''"
    by (simp add: demo_users)
  show ?thesis
    by (simp add: routeRequest_forward [OF p d])
      (simp add: ServeHTTP_def demo_env_def ok_response_def drop_hop_by_hop_def)
qed


subsection \<open>C1: path parsing\<close>

text \<open>
  C1. A request whose path is \<^verbatim>\<open>/api/<svc>/<rest>\<close>, \<open>svc\<close> holding no slash, is
  parsed into the service name \<open>svc\<close> followed by \<^verbatim>\<open>-service\<close> and the forward
  path \<^verbatim>\<open>/<rest>\<close>, an empty rest giving \<^verbatim>\<open>/\<close>: this name is the one looked up,
  and this path is the one of the request handed to the proxy. A request with any other
  path is refused as malformed: the handler answers 400, logs the arrival and does
  nothing else, so neither a registry query nor a forward takes place. The paths are
  those the server hands to the handler, which are empty or begin with a slash; the
  second half is stated for every path that does not begin with \<^verbatim>\<open>api/\<close>, which
  includes them.
\<close>

theorem route_by_path:
  "(CHR ''/'' \<notin> set svc \<and> url_path r = ''/api/'' @ svc @ ''/'' @ rest \<longrightarrow>
      parse (url_path r) = Inr (svc @ ''-service'', ''/'' @ rest)
      \<and> (fst (discoverService env (svc @ ''-service'')) = Inl err \<longrightarrow>
           routeRequest env r =
             (http_Error ''Service not available'' 503,
              [LogPrintf (''Incoming request: '' @ req_method r @ '' '' @ url_path r)]
              @ snd (discoverService env (svc @ ''-service''))
              @ [LogPrintf (''Service discovery failed for '' @ quote @ svc @ ''-service''
                            @ quote @ '': '' @ error_string err)]))
      \<and> (fst (discoverService env (svc @ ''-service'')) = Inr target \<longrightarrow>
           routeRequest env r =
             (fst (ServeHTTP env target (r\<lparr>url_path := ''/'' @ rest\<rparr>)),
              [LogPrintf (''Incoming request: '' @ req_method r @ '' '' @ url_path r)]
              @ snd (discoverService env (svc @ ''-service''))
              @ [LogPrintf (''Located service at: '' @ url_String env target),
                 LogPrintf (''Proxying to: '' @ url_String env target @ ''/'' @ rest),
                 ProxyServeHTTP target (r\<lparr>url_path := ''/'' @ rest\<rparr>)]
              @ snd (ServeHTTP env target (r\<lparr>url_path := ''/'' @ rest\<rparr>)))))
   \<and> (\<not> HasPrefix path ''api/''
        \<and> (\<forall>s t. CHR ''/'' \<in> set s \<or> path \<noteq> ''/api/'' @ s @ ''/'' @ t)
        \<and> url_path r = path \<longrightarrow>
        parse path = Inl MalformedPath
      \<and> routeRequest env r =
           (http_Error ''Invalid path format'' 400,
            [LogPrintf (''Incoming request: '' @ req_method r @ '' '' @ path)]))"
proof (intro conjI impI)
  assume a: "CHR ''/'' \<notin> set svc \<and> url_path r = ''/api/'' @ svc @ ''/'' @ rest"
  then show p: "parse (url_path r) = Inr (svc @ ''-service'', ''/'' @ rest)"
    using parse_accepts(1) [of svc rest] by simp
  {
    assume d: "fst (discoverService env (svc @ ''-service'')) = Inl err"
    show "routeRequest env r =
             (http_Error ''Service not available'' 503,
              [LogPrintf (''Incoming request: '' @ req_method r @ '' '' @ url_path r)]
              @ snd (discoverService env (svc @ ''-service''))
              @ [LogPrintf (''Service discovery failed for '' @ quote @ svc @ ''-service''
                            @ quote @ '': '' @ error_string err)])"
      by (simp add: routeRequest_unavailable [OF p d] StatusServiceUnavailable_def)
  }
  {
    assume d: "fst (discoverService env (svc @ ''-service'')) = Inr target"
    show "routeRequest env r =
             (fst (ServeHTTP env target (r\<lparr>url_path := ''/'' @ rest\<rparr>)),
              [LogPrintf (''Incoming request: '' @ req_method r @ '' '' @ url_path r)]
              @ snd (discoverService env (svc @ ''-service''))
              @ [LogPrintf (''Located service at: '' @ url_String env target),
                 LogPrintf (''Proxying to: '' @ url_String env target @ ''/'' @ rest),
                 ProxyServeHTTP target (r\<lparr>url_path := ''/'' @ rest\<rparr>)]
              @ snd (ServeHTTP env target (r\<lparr>url_path := ''/'' @ rest\<rparr>)))"
      by (simp add: routeRequest_forward [OF p d])
  }
next
  assume other: "\<not> HasPrefix path ''api/''
        \<and> (\<forall>s t. CHR ''/'' \<in> set s \<or> path \<noteq> ''/api/'' @ s @ ''/'' @ t)
        \<and> url_path r = path"
  show bad: "parse path = Inl MalformedPath"
  proof (rule ccontr)
    assume "parse path \<noteq> Inl MalformedPath"
    from parse_accepted_form [OF this] obtain s t where
      s: "CHR ''/'' \<notin> set s"
      and form: "path = ''/api/'' @ s @ ''/'' @ t \<or> path = ''api/'' @ s @ ''/'' @ t"
      by blast
    from other s have "path \<noteq> ''/api/'' @ s @ ''/'' @ t" by blast
    with form have "path = ''api/'' @ s @ ''/'' @ t" by simp
    then have "HasPrefix path ''api/''" by (simp add: HasPrefix_def)
    with other show False by simp
  qed
  from other have "url_path r = path" by simp
  with bad routeRequest_malformed [of r env]
  show "routeRequest env r =
          (http_Error ''Invalid path format'' 400,
           [LogPrintf (''Incoming request: '' @ req_method r @ '' '' @ path)])"
    by (simp add: StatusBadRequest_def)
qed

text \<open>
  The theorem at \<^verbatim>\<open>/api/users/42\<close>, at \<^verbatim>\<open>/bogus\<close>, which lacks the prefix, and at
  \<^verbatim>\<open>/api/users\<close>, which has one segment after it.
\<close>

theorem route_by_path_witness:
  "CHR ''/'' \<notin> set ''users''
   \<and> parse ''/api/users/42'' = Inr (''users-service'', ''/42'')
   \<and> fst (discoverService demo_env ''users-service'') = Inr ''http://node1:8081''
   \<and> forward_targets (snd (routeRequest demo_env (get_request ''/api/users/42'')))
       = [(''http://node1:8081'', ''/42'')]
   \<and> \<not> HasPrefix ''/bogus'' ''api/''
   \<and> routeRequest demo_env (get_request ''/bogus'') =
       (http_Error ''Invalid path format'' 400, [LogPrintf ''Incoming request: GET /bogus''])
   \<and> \<not> HasPrefix ''/api/users'' ''api/''
   \<and> routeRequest demo_env (get_request ''/api/users'') =
       (http_Error ''Invalid path format'' 400,
        [LogPrintf ''Incoming request: GET /api/users''])"
proof -
  have form: "CHR ''/'' \<notin> set ''users''
      \<and> url_path (get_request ''/api/users/42'') = ''/api/'' @ ''users'' @ ''/'' @ ''42''"
    by (simp add: get_request_def)
  note good = route_by_path [where svc = "''users''" and rest = "''42''" and env = demo_env
      and r = "get_request ''/api/users/42''" and target = "''http://node1:8081''",
      THEN conjunct1, rule_format, OF form]
  have d: "fst (discoverService demo_env ''users-service'') = Inr ''http://node1:8081''"
    by (simp add: demo_users)
  from good d have p: "parse ''/api/users/42'' = Inr (''users-service'', ''/42'')"
    and run: "forward_targets (snd (routeRequest demo_env (get_request ''/api/users/42'')))
       = [(''http://node1:8081'', ''/42'')]"
    by (simp_all add: get_request_def forward_targets_append ServeHTTP_targets
        discoverService_targets)
  have bogus: "\<not> HasPrefix ''/bogus'' ''api/''
      \<and> (\<forall>s t. CHR ''/'' \<in> set s \<or> ''/bogus'' \<noteq> ''/api/'' @ s @ ''/'' @ t)
      \<and> url_path (get_request ''/bogus'') = ''/bogus''"
    by (simp add: HasPrefix_def get_request_def)
  note bad1 = route_by_path [where path = "''/bogus''" and r = "get_request ''/bogus''"
      and env = demo_env, THEN conjunct2, rule_format, OF bogus]
  have short: "\<forall>s t. CHR ''/'' \<in> set s \<or> ''/api/users'' \<noteq> ''/api/'' @ s @ ''/'' @ t"
  proof (intro allI)
    fix s t
    show "CHR ''/'' \<in> set s \<or> ''/api/users'' \<noteq> ''/api/'' @ s @ ''/'' @ t"
    proof (rule disjCI)
      assume "\<not> ''/api/users'' \<noteq> ''/api/'' @ s @ ''/'' @ t"
      then have "''users'' = s @ ''/'' @ t" by simp
      then have "CHR ''/'' \<in> set ''users''"
        by (metis in_set_conv_decomp append_Cons append_Nil)
      then show "CHR ''/'' \<in> set s" by simp
    qed
  qed
  then have users: "\<not> HasPrefix ''/api/users'' ''api/''
      \<and> (\<forall>s t. CHR ''/'' \<in> set s \<or> ''/api/users'' \<noteq> ''/api/'' @ s @ ''/'' @ t)
      \<and> url_path (get_request ''/api/users'') = ''/api/users''"
    by (simp add: HasPrefix_def get_request_def)
  note bad2 = route_by_path [where path = "''/api/users''" and r = "get_request ''/api/users''"
      and env = demo_env, THEN conjunct2, rule_format, OF users]
  from bogus have b0: "\<not> HasPrefix ''/bogus'' ''api/''" by simp
  from users have u0: "\<not> HasPrefix ''/api/users'' ''api/''" by simp
  from bad1 have b1: "routeRequest demo_env (get_request ''/bogus'') =
       (http_Error ''Invalid path format'' 400, [LogPrintf ''Incoming request: GET /bogus''])"
    by (simp add: get_request_def)
  from bad2 have b2: "routeRequest demo_env (get_request ''/api/users'') =
       (http_Error ''Invalid path format'' 400,
        [LogPrintf ''Incoming request: GET /api/users''])"
    by (simp add: get_request_def)
  have c: "CHR ''/'' \<notin> set ''users''" by simp
  from c p d run b0 b1 u0 b2 show ?thesis by blast
qed


subsection \<open>C2: failures and their status codes\<close>

text \<open>
  C2. A request whose path does not parse is answered with 400 through
  \<^verbatim>\<open>http.Error\<close>; a request whose service cannot be resolved, in particular one
  whose service name has no healthy instance, is answered with 503. Each of the two
  failures has this one status, whatever the rest of the request.
\<close>

theorem failure_statuses:
  "(parse (url_path r) = Inl MalformedPath \<longrightarrow>
      fst (routeRequest env r) = http_Error ''Invalid path format'' 400
      \<and> resp_status (fst (routeRequest env r)) = 400)
   \<and> (parse (url_path r) = Inr (name, fwd) \<and> fst (discoverService env name) = Inl err \<longrightarrow>
      fst (routeRequest env r) = http_Error ''Service not available'' 503
      \<and> resp_status (fst (routeRequest env r)) = 503)
   \<and> (parse (url_path r) = Inr (name, fwd) \<and> healthy_set env name = [] \<longrightarrow>
      fst (routeRequest env r) = http_Error ''Service not available'' 503
      \<and> resp_status (fst (routeRequest env r)) = 503)"
proof (intro conjI impI)
  assume "parse (url_path r) = Inl MalformedPath"
  then have "fst (routeRequest env r) = http_Error ''Invalid path format'' 400"
    by (simp add: routeRequest_malformed StatusBadRequest_def)
  then show "fst (routeRequest env r) = http_Error ''Invalid path format'' 400"
    and "resp_status (fst (routeRequest env r)) = 400"
    by (simp_all add: http_Error_def)
next
  assume "parse (url_path r) = Inr (name, fwd) \<and> fst (discoverService env name) = Inl err"
  then have "fst (routeRequest env r) = http_Error ''Service not available'' 503"
    by (simp add: routeRequest_unavailable StatusServiceUnavailable_def)
  then show "fst (routeRequest env r) = http_Error ''Service not available'' 503"
    and "resp_status (fst (routeRequest env r)) = 503"
    by (simp_all add: http_Error_def)
next
  assume a: "parse (url_path r) = Inr (name, fwd) \<and> healthy_set env name = []"
  then obtain e where "fst (discoverService env name) = Inl e"
    using discoverService_none_healthy by blast
  with a have "fst (routeRequest env r) = http_Error ''Service not available'' 503"
    by (simp add: routeRequest_unavailable StatusServiceUnavailable_def)
  then show "fst (routeRequest env r) = http_Error ''Service not available'' 503"
    and "resp_status (fst (routeRequest env r)) = 503"
    by (simp_all add: http_Error_def)
qed

text \<open>The theorem at \<^verbatim>\<open>/bogus\<close> and at a service that nobody registered.\<close>

theorem failure_statuses_witness:
  "parse ''/bogus'' = Inl MalformedPath
   \<and> resp_status (fst (routeRequest demo_env (get_request ''/bogus''))) = 400
   \<and> parse ''/api/orders/7'' = Inr (''orders-service'', ''/7'')
   \<and> healthy_set demo_env ''orders-service'' = []
   \<and> resp_status (fst (routeRequest demo_env (get_request ''/api/orders/7''))) = 503"
  using failure_statuses [where r = "get_request ''/bogus''" and env = demo_env]
    failure_statuses [where r = "get_request ''/api/orders/7''" and env = demo_env
      and name = "''orders-service''" and fwd = "''/7''"]
  by (simp add: get_request_def parse_bogus parse_orders7 demo_healthy_orders http_Error_def)

subsection \<open>C3: resolution\<close>

text \<open>
  C3, as amended. When the Consul client can be made, the health query succeeds and the
  endpoint string of the first healthy instance parses, \<^verbatim>\<open>discoverService\<close>
  returns that first healthy instance's URL. Whenever it returns a URL, the URL is the
  one parsed from the first element of the healthy set: a registered instance of the
  name asked for whose check passes. When the healthy set is empty it fails, and the
  gateway answers 503.
\<close>

theorem discoverService_first_healthy:
  "(consul_client_err env = None \<and> consul_query_err env = None
      \<and> healthy_set env name \<noteq> []
      \<and> url_Parse env (endpoint_of (healthy_set env name ! 0)) = Inr u \<longrightarrow>
      fst (discoverService env name) = Inr u)
   \<and> (fst (discoverService env name) = Inr u \<longrightarrow>
      healthy_set env name \<noteq> []
      \<and> url_Parse env (endpoint_of (healthy_set env name ! 0)) = Inr u
      \<and> healthy_set env name ! 0 \<in> set (catalog env)
      \<and> svc_name (healthy_set env name ! 0) = name
      \<and> passing (healthy_set env name ! 0))
   \<and> (healthy_set env name = [] \<longrightarrow>
      (\<exists>err. fst (discoverService env name) = Inl err)
      \<and> (parse (url_path r) = Inr (name, fwd) \<longrightarrow>
           fst (routeRequest env r) = http_Error ''Service not available'' 503))"
proof (intro conjI impI)
  assume "consul_client_err env = None \<and> consul_query_err env = None
      \<and> healthy_set env name \<noteq> []
      \<and> url_Parse env (endpoint_of (healthy_set env name ! 0)) = Inr u"
  then show "fst (discoverService env name) = Inr u"
    by (simp add: discoverService_ok)
next
  assume found: "fst (discoverService env name) = Inr u"
  note facts = discoverService_Inr [OF found]
  from facts show "healthy_set env name \<noteq> []"
    and "url_Parse env (endpoint_of (healthy_set env name ! 0)) = Inr u"
    by simp_all
  from facts have "healthy_set env name \<noteq> []" by simp
  note first = healthy_set_first [OF this]
  from first show "healthy_set env name ! 0 \<in> set (catalog env)"
    and "svc_name (healthy_set env name ! 0) = name"
    and "passing (healthy_set env name ! 0)"
    by simp_all
next
  assume none: "healthy_set env name = []"
  then show ex: "\<exists>err. fst (discoverService env name) = Inl err"
    by (rule discoverService_none_healthy)
  assume "parse (url_path r) = Inr (name, fwd)"
  with ex show "fst (routeRequest env r) = http_Error ''Service not available'' 503"
    by (auto simp: routeRequest_unavailable StatusServiceUnavailable_def)
qed

text \<open>
  The theorem on a catalog whose first instance of \<^verbatim>\<open>users-service\<close> is unhealthy
  and whose second and third are healthy, and on a name without instances.
\<close>

theorem discoverService_first_healthy_witness:
  "catalog demo_env = [sick_entry, users_entry, spare_entry]
   \<and> healthy_set demo_env ''users-service'' = [users_entry, spare_entry]
   \<and> endpoint_of users_entry = ''http://node1:8081''
   \<and> fst (discoverService demo_env ''users-service'') = Inr ''http://node1:8081''
   \<and> passing users_entry
   \<and> healthy_set demo_env ''orders-service'' = []
   \<and> fst (routeRequest demo_env (get_request ''/api/orders/7''))
       = http_Error ''Service not available'' 503"
  using discoverService_first_healthy
      [where env = demo_env and name = "''users-service''" and u = "''http://node1:8081''"]
    discoverService_first_healthy
      [where env = demo_env and name = "''orders-service''"
        and r = "get_request ''/api/orders/7''" and fwd = "''/7''"]
  by (simp add: demo_healthy_users demo_healthy_orders get_request_def parse_orders7)
    (simp add: eval_defs)

text \<open>
  C3 as stated fails: a healthy instance is registered, but the query to Consul fails,
  and so does the resolution.
\<close>

theorem healthy_but_registry_down:
  "healthy_set outage_env ''users-service'' = [users_entry, spare_entry]
   \<and> fst (discoverService outage_env ''users-service'')
       = Inl (ConsulQueryFailed ''users-service'' ''connection refused'')"
  by (simp add: eval_defs)

subsection \<open>C4: a 5xx response of the backend\<close>

text \<open>
  C4, as amended. For every request that reaches the forwarding step, when the backend
  itself returns a 5xx the caller gets the backend's status code and body; the gateway
  makes the one forward attempt, does not retry, and logs nothing beyond the lines of a
  successful forward.
\<close>

theorem backend_5xx_passed_through:
  "parse (url_path r) = Inr (name, fwd) \<and> fst (discoverService env name) = Inr target
     \<and> round_trip env target (r\<lparr>url_path := fwd\<rparr>) = Inr res
     \<and> 500 \<le> resp_status res \<and> resp_status res \<le> 599 \<longrightarrow>
   resp_status (fst (routeRequest env r)) = resp_status res
   \<and> resp_body (fst (routeRequest env r)) = resp_body res
   \<and> snd (routeRequest env r) =
       [LogPrintf (''Incoming request: '' @ req_method r @ '' '' @ url_path r)]
       @ snd (discoverService env name)
       @ [LogPrintf (''Located service at: '' @ url_String env target),
          LogPrintf (''Proxying to: '' @ url_String env target @ fwd),
          ProxyServeHTTP target (r\<lparr>url_path := fwd\<rparr>)]"
proof
  assume a: "parse (url_path r) = Inr (name, fwd) \<and> fst (discoverService env name) = Inr target
     \<and> round_trip env target (r\<lparr>url_path := fwd\<rparr>) = Inr res
     \<and> 500 \<le> resp_status res \<and> resp_status res \<le> 599"
  then have p: "parse (url_path r) = Inr (name, fwd)"
    and d: "fst (discoverService env name) = Inr target"
    and b: "round_trip env target (r\<lparr>url_path := fwd\<rparr>) = Inr res"
    by simp_all
  from b have s: "ServeHTTP env target (r\<lparr>url_path := fwd\<rparr>)
      = (res\<lparr>resp_header := copy_header env (resp_header res)\<rparr>, [])"
    by (simp add: ServeHTTP_def)
  show "resp_status (fst (routeRequest env r)) = resp_status res
   \<and> resp_body (fst (routeRequest env r)) = resp_body res
   \<and> snd (routeRequest env r) =
       [LogPrintf (''Incoming request: '' @ req_method r @ '' '' @ url_path r)]
       @ snd (discoverService env name)
       @ [LogPrintf (''Located service at: '' @ url_String env target),
          LogPrintf (''Proxying to: '' @ url_String env target @ fwd),
          ProxyServeHTTP target (r\<lparr>url_path := fwd\<rparr>)]"
    by (simp add: routeRequest_forward [OF p d] s)
qed

text \<open>The theorem on a backend that answers 500.\<close>

theorem backend_5xx_passed_through_witness:
  "parse ''/api/users/42'' = Inr (''users-service'', ''/42'')
   \<and> fst (discoverService failing_env ''users-service'') = Inr ''http://node1:8081''
   \<and> round_trip failing_env ''http://node1:8081'' (get_request ''/42'') = Inr boom_response
   \<and> resp_status boom_response = 500
   \<and> resp_status (fst (routeRequest failing_env (get_request ''/api/users/42''))) = 500
   \<and> resp_body (fst (routeRequest failing_env (get_request ''/api/users/42''))) = ''boom''
   \<and> log_lines (snd (routeRequest failing_env (get_request ''/api/users/42''))) =
       [''Incoming request: GET /api/users/42'',
        ''Located service at: http://node1:8081'',
        ''Proxying to: http://node1:8081/42'']"
  using backend_5xx_passed_through
    [where r = "get_request ''/api/users/42''" and env = failing_env
      and name = "''users-service''" and fwd = "''/42''"
      and target = "''http://node1:8081''" and res = boom_response]
  by (simp add: get_request_def parse_users42 failing_users)
    (simp add: failing_env_def demo_env_def boom_response_def)

text \<open>
  C4 as stated fails: the backend answers 500, the proxy takes its copying branch and
  logs nothing, and the handler returns status and body of the backend with the events
  of an ordinary forward.
\<close>

theorem backend_500_not_a_failure:
  "round_trip failing_env ''http://node1:8081'' (get_request ''/42'') = Inr boom_response
   \<and> resp_status boom_response = 500
   \<and> resp_status (fst (ServeHTTP failing_env ''http://node1:8081'' (get_request ''/42''))) = 500
   \<and> snd (ServeHTTP failing_env ''http://node1:8081'' (get_request ''/42'')) = []
   \<and> routeRequest failing_env (get_request ''/api/users/42'') =
       (\<lparr>resp_status = 500, resp_header = [(''Content-Type'', [''text/plain''])],
         resp_body = ''boom''\<rparr>,
        [LogPrintf ''Incoming request: GET /api/users/42'',
         ConsulHealthService ''users-service'' [] True,
         LogPrintf ''Located service at: http://node1:8081'',
         LogPrintf ''Proxying to: http://node1:8081/42'',
         ProxyServeHTTP ''http://node1:8081'' (get_request ''/42'')])"
proof -
  have p: "parse (url_path (get_request ''/api/users/42'')) = Inr (''users-service'', ''/42'')"
    by (simp add: get_request_def parse_users42)
  have d: "fst (discoverService failing_env ''users-service'') = Inr ''http://node1:8081''"
    by (simp add: failing_users)
  show ?thesis
    by (simp add: routeRequest_forward [OF p d] failing_users)
      (simp add: get_request_def failing_env_def demo_env_def ServeHTTP_def boom_response_def
        drop_hop_by_hop_def)
qed



subsection \<open>C5: what is logged\<close>

text \<open>
  C5, as amended. For every inbound request the gateway logs the method and the path on
  arrival. When the path parses it logs, in addition, the service name and the reason of
  a failed discovery, or the resolved target and the URL proxied to (and the proxy logs
  a transport error, if there is one). Nothing else is logged: no reason for a malformed
  path, and no status code on any exit.
\<close>

theorem gateway_log_lines:
  "(parse (url_path r) = Inl MalformedPath \<longrightarrow>
      log_lines (snd (routeRequest env r)) =
        [''Incoming request: '' @ req_method r @ '' '' @ url_path r])
   \<and> (parse (url_path r) = Inr (name, fwd) \<and> fst (discoverService env name) = Inl err \<longrightarrow>
      log_lines (snd (routeRequest env r)) =
        [''Incoming request: '' @ req_method r @ '' '' @ url_path r,
         ''Service discovery failed for '' @ quote @ name @ quote @ '': '' @ error_string err])
   \<and> (parse (url_path r) = Inr (name, fwd) \<and> fst (discoverService env name) = Inr target \<longrightarrow>
      log_lines (snd (routeRequest env r)) =
        [''Incoming request: '' @ req_method r @ '' '' @ url_path r,
         ''Located service at: '' @ url_String env target,
         ''Proxying to: '' @ url_String env target @ fwd]
        @ (case round_trip env target (r\<lparr>url_path := fwd\<rparr>) of
             Inl e \<Rightarrow> [''http: proxy error: '' @ e] | Inr res \<Rightarrow> []))"
proof (intro conjI impI)
  assume "parse (url_path r) = Inl MalformedPath"
  then show "log_lines (snd (routeRequest env r)) =
        [''Incoming request: '' @ req_method r @ '' '' @ url_path r]"
    by (simp add: routeRequest_malformed)
next
  assume "parse (url_path r) = Inr (name, fwd) \<and> fst (discoverService env name) = Inl err"
  then show "log_lines (snd (routeRequest env r)) =
        [''Incoming request: '' @ req_method r @ '' '' @ url_path r,
         ''Service discovery failed for '' @ quote @ name @ quote @ '': '' @ error_string err]"
    by (simp add: routeRequest_unavailable log_lines_append discoverService_log)
next
  assume "parse (url_path r) = Inr (name, fwd) \<and> fst (discoverService env name) = Inr target"
  then show "log_lines (snd (routeRequest env r)) =
        [''Incoming request: '' @ req_method r @ '' '' @ url_path r,
         ''Located service at: '' @ url_String env target,
         ''Proxying to: '' @ url_String env target @ fwd]
        @ (case round_trip env target (r\<lparr>url_path := fwd\<rparr>) of
             Inl e \<Rightarrow> [''http: proxy error: '' @ e] | Inr res \<Rightarrow> [])"
    by (simp add: routeRequest_forward log_lines_append discoverService_log ServeHTTP_events
        split: sum.splits)
qed

text \<open>The theorem on a malformed path, on a registry outage and on a successful forward.\<close>

theorem gateway_log_lines_witness:
  "parse ''/bogus'' = Inl MalformedPath
   \<and> log_lines (snd (routeRequest demo_env (get_request ''/bogus'')))
       = [''Incoming request: GET /bogus'']
   \<and> parse ''/api/users/42'' = Inr (''users-service'', ''/42'')
   \<and> fst (discoverService outage_env ''users-service'')
       = Inl (ConsulQueryFailed ''users-service'' ''connection refused'')
   \<and> log_lines (snd (routeRequest outage_env (get_request ''/api/users/42'')))
       = [''Incoming request: GET /api/users/42'',
          ''Service discovery failed for '' @ quote @ ''users-service'' @ quote
            @ '': consul query failed for '' @ quote @ ''users-service'' @ quote
            @ '': connection refused'']
   \<and> fst (discoverService demo_env ''users-service'') = Inr ''http://node1:8081''
   \<and> log_lines (snd (routeRequest demo_env (get_request ''/api/users/42'')))
       = [''Incoming request: GET /api/users/42'',
          ''Located service at: http://node1:8081'',
          ''Proxying to: http://node1:8081/42'']"
  using gateway_log_lines [where r = "get_request ''/bogus''" and env = demo_env]
    gateway_log_lines [where r = "get_request ''/api/users/42''" and env = outage_env
      and name = "''users-service''" and fwd = "''/42''"
      and err = "ConsulQueryFailed ''users-service'' ''connection refused''"]
    gateway_log_lines [where r = "get_request ''/api/users/42''" and env = demo_env
      and name = "''users-service''" and fwd = "''/42''" and target = "''http://node1:8081''"]
  by (simp add: get_request_def parse_bogus parse_users42 demo_users outage_users)
    (simp add: demo_env_def)

text \<open>
  C5 as stated fails: \<^verbatim>\<open>GET /bogus\<close> is answered with 400, and the log of the call
  is the arrival line alone, which holds neither the status code nor a failure reason.
\<close>

theorem status_code_not_logged:
  "resp_status (fst (routeRequest demo_env (get_request ''/bogus''))) = 400
   \<and> log_lines (snd (routeRequest demo_env (get_request ''/bogus'')))
       = [''Incoming request: GET /bogus'']
   \<and> \<not> mentions (log_lines (snd (routeRequest demo_env (get_request ''/bogus'')))) ''400''
   \<and> \<not> mentions (log_lines (snd (routeRequest demo_env (get_request ''/bogus'')))) ''Invalid''"
proof -
  have p: "parse (url_path (get_request ''/bogus'')) = Inl MalformedPath"
    by (simp add: get_request_def parse_bogus)
  show ?thesis
    by (simp add: routeRequest_malformed [OF p])
      (simp add: get_request_def http_Error_def StatusBadRequest_def HasPrefix_def)
qed

subsection \<open>C6: one resolution, one forward\<close>

text \<open>
  C6. A call of the handler sends at most one health query to Consul and hands the
  request to the reverse proxy at most once. A malformed path leads to neither, and a
  failed resolution is not followed by a forward or a second query.
\<close>

theorem single_attempt:
  "length (filter is_query (snd (routeRequest env r))) \<le> 1
   \<and> length (filter is_forward (snd (routeRequest env r))) \<le> 1
   \<and> (parse (url_path r) = Inl MalformedPath \<longrightarrow>
        filter is_query (snd (routeRequest env r)) = []
        \<and> filter is_forward (snd (routeRequest env r)) = [])
   \<and> (parse (url_path r) = Inr (name, fwd) \<and> fst (discoverService env name) = Inl err \<longrightarrow>
        filter is_forward (snd (routeRequest env r)) = [])"
proof -
  have bounds: "length (filter is_query (snd (routeRequest env r))) \<le> 1
      \<and> length (filter is_forward (snd (routeRequest env r))) \<le> 1"
  proof (cases "url_path r" rule: parse_cases)
    case 1
    then show ?thesis by (simp add: routeRequest_malformed)
  next
    case (2 n f)
    show ?thesis
    proof (cases "fst (discoverService env n)")
      case (Inl e)
      with 2 show ?thesis
        using discoverService_queries [of env n]
        by (simp add: routeRequest_unavailable discoverService_no_forward)
    next
      case (Inr t)
      with 2 show ?thesis
        using discoverService_queries [of env n]
        by (simp add: routeRequest_forward discoverService_no_forward
            ServeHTTP_no_query ServeHTTP_no_forward)
    qed
  qed
  have bad: "parse (url_path r) = Inl MalformedPath \<longrightarrow>
        filter is_query (snd (routeRequest env r)) = []
        \<and> filter is_forward (snd (routeRequest env r)) = []"
    by (simp add: routeRequest_malformed)
  have unavailable:
    "parse (url_path r) = Inr (name, fwd) \<and> fst (discoverService env name) = Inl err \<longrightarrow>
        filter is_forward (snd (routeRequest env r)) = []"
    by (simp add: routeRequest_unavailable discoverService_no_forward)
  from bounds bad unavailable show ?thesis by blast
qed

text \<open>The theorem on a forwarded request, a malformed path and a registry outage.\<close>

theorem single_attempt_witness:
  "filter is_query (snd (routeRequest demo_env (get_request ''/api/users/42'')))
     = [ConsulHealthService ''users-service'' [] True]
   \<and> length (filter is_forward (snd (routeRequest demo_env (get_request ''/api/users/42'')))) = 1
   \<and> parse ''/bogus'' = Inl MalformedPath
   \<and> filter is_forward (snd (routeRequest demo_env (get_request ''/bogus''))) = []
   \<and> fst (discoverService outage_env ''users-service'')
        = Inl (ConsulQueryFailed ''users-service'' ''connection refused'')
   \<and> filter is_forward (snd (routeRequest outage_env (get_request ''/api/users/42''))) = []"
proof -
  have p: "parse (url_path (get_request ''/api/users/42'')) = Inr (''users-service'', ''/42'')"
    by (simp add: get_request_def parse_users42)
  have d: "fst (discoverService demo_env ''users-service'') = Inr ''http://node1:8081''"
    by (simp add: demo_users)
  have run: "filter is_query (snd (routeRequest demo_env (get_request ''/api/users/42'')))
     = [ConsulHealthService ''users-service'' [] True]
   \<and> length (filter is_forward (snd (routeRequest demo_env (get_request ''/api/users/42'')))) = 1"
    by (simp add: routeRequest_forward [OF p d] demo_users ServeHTTP_no_query
        ServeHTTP_no_forward)
  show ?thesis
    using run
      single_attempt [where r = "get_request ''/bogus''" and env = demo_env]
      single_attempt [where r = "get_request ''/api/users/42''" and env = outage_env
        and name = "''users-service''" and fwd = "''/42''"
        and err = "ConsulQueryFailed ''users-service'' ''connection refused''"]
    by (simp add: get_request_def parse_bogus parse_users42 outage_users)
qed

subsection \<open>C7: repeated requests\<close>

text \<open>
  C7. Let the server handle the inbound requests at distinct addresses one after
  another, each call starting in the world that the calls before it have left: with
  their log lines written and their request objects rewritten. Then every call returns,
  the registry and the backends are as they were, each response is the one the handler
  gives to that request in the initial world, and two requests that are equal on
  arrival, whatever their method, get equal responses.
\<close>

theorem repeated_requests:
  "distinct ps \<and> (\<forall>p\<in>set ps. requests w p \<noteq> None) \<longrightarrow>
     (\<exists>resps w'. serve ps w = Some (resps, w')
        \<and> length resps = length ps
        \<and> outside w' = outside w
        \<and> (\<forall>i r. i < length ps \<and> requests w (ps ! i) = Some r \<longrightarrow>
              resps ! i = fst (routeRequest (outside w) r))
        \<and> (\<forall>i j. i < length ps \<and> j < length ps
                  \<and> requests w (ps ! i) = requests w (ps ! j) \<longrightarrow>
              resps ! i = resps ! j))"
proof
  assume a: "distinct ps \<and> (\<forall>p\<in>set ps. requests w p \<noteq> None)"
  define resps where
    "resps = map (\<lambda>p. fst (routeRequest (outside w) (the (requests w p)))) ps"
  from a serve_frame [of ps w] obtain w' where
    run: "serve ps w = Some (resps, w')" and out: "outside w' = outside w"
    unfolding resps_def by blast
  have len: "length resps = length ps" by (simp add: resps_def)
  have alone: "\<forall>i r. i < length ps \<and> requests w (ps ! i) = Some r \<longrightarrow>
              resps ! i = fst (routeRequest (outside w) r)"
    by (simp add: resps_def)
  have equal: "\<forall>i j. i < length ps \<and> j < length ps
                  \<and> requests w (ps ! i) = requests w (ps ! j) \<longrightarrow>
              resps ! i = resps ! j"
    by (simp add: resps_def)
  from run len out alone equal
  show "\<exists>resps w'. serve ps w = Some (resps, w')
        \<and> length resps = length ps
        \<and> outside w' = outside w
        \<and> (\<forall>i r. i < length ps \<and> requests w (ps ! i) = Some r \<longrightarrow>
              resps ! i = fst (routeRequest (outside w) r))
        \<and> (\<forall>i j. i < length ps \<and> j < length ps
                  \<and> requests w (ps ! i) = requests w (ps ! j) \<longrightarrow>
              resps ! i = resps ! j)"
    by blast
qed

text \<open>
  The theorem on three requests of which the first and the third are the same
  \<^verbatim>\<open>GET\<close>.
\<close>

theorem repeated_requests_witness:
  "distinct [0, 1, 2::nat]
   \<and> requests demo_world 0 = requests demo_world 2
   \<and> (\<exists>resps w'. serve [0, 1, 2] demo_world = Some (resps, w')
        \<and> resps ! 0 = ok_response \<and> resps ! 2 = ok_response
        \<and> resps ! 1 = http_Error ''Invalid path format'' 400
        \<and> outside w' = demo_env)"
proof -
  have pre: "distinct [0, 1, 2::nat] \<and> (\<forall>p\<in>set [0, 1, 2]. requests demo_world p \<noteq> None)"
    by (simp add: demo_world_requests)
  from repeated_requests [where ps = "[0, 1, 2]" and w = demo_world] pre
  obtain resps w' where run: "serve [0, 1, 2] demo_world = Some (resps, w')"
    and out: "outside w' = outside demo_world"
    and alone: "\<forall>i r. i < length [0, 1, 2::nat] \<and> requests demo_world ([0, 1, 2] ! i) = Some r \<longrightarrow>
              resps ! i = fst (routeRequest (outside demo_world) r)"
    by blast
  from alone [rule_format, of 0 "get_request ''/api/users/42''"]
  have r0: "resps ! 0 = ok_response"
    by (simp add: demo_world_requests demo_forward)
  from alone [rule_format, of 2 "get_request ''/api/users/42''"]
  have r2: "resps ! 2 = ok_response"
    by (simp add: demo_world_requests demo_forward)
  have bogus: "parse (url_path (get_request ''/bogus'')) = Inl MalformedPath"
    by (simp add: get_request_def parse_bogus)
  from alone [rule_format, of 1 "get_request ''/bogus''"]
  have r1: "resps ! 1 = http_Error ''Invalid path format'' 400"
    by (simp add: demo_world_requests routeRequest_malformed [OF bogus] StatusBadRequest_def)
  from run out r0 r1 r2 show ?thesis
    by (auto simp: demo_world_requests)
qed

text \<open>
  The addresses have to be distinct, as those of inbound requests are: line 58 leaves
  the forward path in the request object, so the handler called a second time on the
  same object finds \<^verbatim>\<open>/42\<close> and answers 400.
\<close>

lemma same_object_twice:
  "\<exists>w'. serve [0, 0] demo_world =
           Some ([ok_response, http_Error ''Invalid path format'' 400], w')"
proof -
  have r: "requests demo_world 0 = Some (get_request ''/api/users/42'')"
    by (simp add: demo_world_requests)
  have p: "parse (url_path (get_request ''/api/users/42'')) = Inr (''users-service'', ''/42'')"
    by (simp add: get_request_def parse_users42)
  have d: "fst (discoverService (outside demo_world) ''users-service'') = Inr ''http://node1:8081''"
    by (simp add: demo_users demo_world_requests)
  define w1 where "w1 = demo_world
     \<lparr>requests := (requests demo_world)(0 \<mapsto> (get_request ''/api/users/42'')\<lparr>url_path := ''/42''\<rparr>),
       trace := trace demo_world @ snd (routeRequest (outside demo_world) (get_request ''/api/users/42''))\<rparr>"
  have first: "routeRequest_st 0 demo_world = Some (ok_response, w1)"
    using routeRequest_st_forward [OF r p d]
    by (simp add: w1_def demo_world_requests demo_forward)
  have r1: "requests w1 0 = Some ((get_request ''/api/users/42'')\<lparr>url_path := ''/42''\<rparr>)"
    by (simp add: w1_def)
  have p1: "parse (url_path ((get_request ''/api/users/42'')\<lparr>url_path := ''/42''\<rparr>)) = Inl MalformedPath"
    by (simp add: eval_defs)
  from routeRequest_st_malformed [OF r1 p1] obtain w2 where
    "routeRequest_st 0 w1 = Some (http_Error ''Invalid path format'' 400, w2)"
    by (simp add: routeRequest_malformed [OF p1] StatusBadRequest_def)
  with first show ?thesis by simp
qed


subsection \<open>C8: an empty service token\<close>

text \<open>
  C8, as amended. A request whose path is \<^verbatim>\<open>/api//<rest>\<close> is accepted by the
  parser, which derives the service name \<^verbatim>\<open>-service\<close>; the request is never
  refused as malformed. It is answered with 503 when the resolution of
  \<^verbatim>\<open>-service\<close> fails, as it does when no healthy instance is registered under that
  name, and it is forwarded with the path \<^verbatim>\<open>/<rest>\<close> when the resolution
  succeeds. The path is \<^verbatim>\<open>URL.Path\<close> as the handler gets it; the concrete runs
  below use \<^verbatim>\<open>/api///x\<close>, the path of the request target
  \<^verbatim>\<open>/api/%2F/x\<close>.
\<close>

theorem empty_service_token:
  "parse (''/api//'' @ rest) = Inr (''-service'', ''/'' @ rest)
   \<and> (url_path r = ''/api//'' @ rest \<longrightarrow>
        (healthy_set env ''-service'' = [] \<longrightarrow>
           fst (routeRequest env r) = http_Error ''Service not available'' 503)
      \<and> (fst (discoverService env ''-service'') = Inl err \<longrightarrow>
           fst (routeRequest env r) = http_Error ''Service not available'' 503)
      \<and> (fst (discoverService env ''-service'') = Inr target \<longrightarrow>
           fst (routeRequest env r) = fst (ServeHTTP env target (r\<lparr>url_path := ''/'' @ rest\<rparr>)))
      \<and> snd (routeRequest env r)
           \<noteq> [LogPrintf (''Incoming request: '' @ req_method r @ '' '' @ url_path r)])"
proof -
  have p: "parse (''/api//'' @ rest) = Inr (''-service'', ''/'' @ rest)"
    using parse_accepts(1) [of "[]" rest] by simp
  have q: "fst (routeRequest env r) = http_Error ''Service not available'' 503"
    if "url_path r = ''/api//'' @ rest" "fst (discoverService env ''-service'') = Inl e" for e
    using that p by (simp add: routeRequest_unavailable StatusServiceUnavailable_def)
  have n: "fst (routeRequest env r) = http_Error ''Service not available'' 503"
    if "url_path r = ''/api//'' @ rest" "healthy_set env ''-service'' = []"
    using that q discoverService_none_healthy [of env "''-service''"] by blast
  have f: "fst (routeRequest env r) = fst (ServeHTTP env target (r\<lparr>url_path := ''/'' @ rest\<rparr>))"
    if "url_path r = ''/api//'' @ rest" "fst (discoverService env ''-service'') = Inr target"
    using that p by (simp add: routeRequest_forward)
  have l: "snd (routeRequest env r)
           \<noteq> [LogPrintf (''Incoming request: '' @ req_method r @ '' '' @ url_path r)]"
    if u: "url_path r = ''/api//'' @ rest"
  proof (cases "fst (discoverService env ''-service'')")
    case (Inl e)
    with u p show ?thesis by (simp add: routeRequest_unavailable)
  next
    case (Inr t)
    with u p show ?thesis by (simp add: routeRequest_forward)
  qed
  from p q n f l show ?thesis by blast
qed

text \<open>The theorem on a registry without and with a service named \<^verbatim>\<open>-service\<close>.\<close>

theorem empty_service_token_witness:
  "parse ''/api///x'' = Inr (''-service'', ''//x'')
   \<and> healthy_set demo_env ''-service'' = []
   \<and> fst (routeRequest demo_env (get_request ''/api///x''))
       = http_Error ''Service not available'' 503
   \<and> fst (discoverService dash_env ''-service'') = Inr ''http://node2:9000''
   \<and> fst (routeRequest dash_env (get_request ''/api///x''))
       = fst (ServeHTTP dash_env ''http://node2:9000'' (get_request ''//x''))"
  using empty_service_token [where rest = "''/x''" and r = "get_request ''/api///x''"
      and env = demo_env]
    empty_service_token [where rest = "''/x''" and r = "get_request ''/api///x''"
      and env = dash_env and target = "''http://node2:9000''"]
  by (simp add: get_request_def dash_found) (simp add: eval_defs)

text \<open>
  C8 as stated fails: with a healthy instance registered under \<^verbatim>\<open>-service\<close> the
  request with the path \<^verbatim>\<open>/api///x\<close> is forwarded and answered with the backend's
  200.
\<close>

theorem encoded_empty_token_forwarded:
  "parse ''/api///x'' = Inr (''-service'', ''//x'')
   \<and> healthy_set dash_env ''-service'' = [dash_entry]
   \<and> routeRequest dash_env (get_request ''/api///x'') =
       (ok_response,
        [LogPrintf ''Incoming request: GET /api///x'',
         ConsulHealthService ''-service'' [] True,
         LogPrintf ''Located service at: http://node2:9000'',
         LogPrintf ''Proxying to: http://node2:9000//x'',
         ProxyServeHTTP ''http://node2:9000'' (get_request ''//x'')])
   \<and> resp_status ok_response = 200"
proof -
  have p: "parse (url_path (get_request ''/api///x'')) = Inr (''-service'', ''//x'')"
    by (simp add: get_request_def parse_encoded_slash)
  have d: "fst (discoverService dash_env ''-service'') = Inr ''http://node2:9000''"
    by (simp add: dash_found)
  show ?thesis
    by (simp add: routeRequest_forward [OF p d] dash_found parse_encoded_slash)
      (simp add: get_request_def dash_env_def demo_env_def ServeHTTP_def ok_response_def
        healthy_set_def dash_entry_def drop_hop_by_hop_def)
qed


subsection \<open>C9: the gRPC error translator\<close>

text \<open>
  C9. \<^verbatim>\<open>handleGRPCError\<close> answers every error: a gRPC status error with
  \<^verbatim>\<open>NotFound\<close> gives 404, \<^verbatim>\<open>InvalidArgument\<close> 400, \<^verbatim>\<open>AlreadyExists\<close> 409,
  \<^verbatim>\<open>PermissionDenied\<close> 403, \<^verbatim>\<open>Unauthenticated\<close> 401,
  \<^verbatim>\<open>FailedPrecondition\<close> 412, \<^verbatim>\<open>Unimplemented\<close> 501, \<^verbatim>\<open>Unavailable\<close> 503
  and every other code 500, each with the status message given to \<^verbatim>\<open>http.Error\<close>
  as the body (which \<^verbatim>\<open>http.Error\<close> ends with a line feed); an error that is not
  a gRPC status gives 500 with the fixed text.
\<close>

theorem grpc_error_translation:
  "handleGRPCError (grpc_error codes_NotFound m) = http_Error m 404
   \<and> handleGRPCError (grpc_error codes_InvalidArgument m) = http_Error m 400
   \<and> handleGRPCError (grpc_error codes_AlreadyExists m) = http_Error m 409
   \<and> handleGRPCError (grpc_error codes_PermissionDenied m) = http_Error m 403
   \<and> handleGRPCError (grpc_error codes_Unauthenticated m) = http_Error m 401
   \<and> handleGRPCError (grpc_error codes_FailedPrecondition m) = http_Error m 412
   \<and> handleGRPCError (grpc_error codes_Unimplemented m) = http_Error m 501
   \<and> handleGRPCError (grpc_error codes_Unavailable m) = http_Error m 503
   \<and> (c \<notin> {codes_NotFound, codes_InvalidArgument, codes_AlreadyExists,
             codes_PermissionDenied, codes_Unauthenticated, codes_FailedPrecondition,
             codes_Unimplemented, codes_Unavailable} \<longrightarrow>
        handleGRPCError (grpc_error c m) = http_Error m 500)
   \<and> handleGRPCError (other_error s) = http_Error ''internal server error'' 500
   \<and> handleGRPCError nil_error = http_Error [] 500
   \<and> resp_status (http_Error m code) = code
   \<and> resp_body (http_Error m code) = m @ [CHR 0x0A]"
proof (intro conjI)
  show "handleGRPCError (grpc_error codes_NotFound m) = http_Error m 404"
    by (simp add: handleGRPCError_grpc)
  show "handleGRPCError (grpc_error codes_InvalidArgument m) = http_Error m 400"
    by (simp add: handleGRPCError_grpc code_defs)
  show "handleGRPCError (grpc_error codes_AlreadyExists m) = http_Error m 409"
    by (simp add: handleGRPCError_grpc code_defs)
  show "handleGRPCError (grpc_error codes_PermissionDenied m) = http_Error m 403"
    by (simp add: handleGRPCError_grpc code_defs)
  show "handleGRPCError (grpc_error codes_Unauthenticated m) = http_Error m 401"
    by (simp add: handleGRPCError_grpc code_defs)
  show "handleGRPCError (grpc_error codes_FailedPrecondition m) = http_Error m 412"
    by (simp add: handleGRPCError_grpc code_defs)
  show "handleGRPCError (grpc_error codes_Unimplemented m) = http_Error m 501"
    by (simp add: handleGRPCError_grpc code_defs)
  show "handleGRPCError (grpc_error codes_Unavailable m) = http_Error m 503"
    by (simp add: handleGRPCError_grpc code_defs)
  show "c \<notin> {codes_NotFound, codes_InvalidArgument, codes_AlreadyExists,
             codes_PermissionDenied, codes_Unauthenticated, codes_FailedPrecondition,
             codes_Unimplemented, codes_Unavailable} \<longrightarrow>
        handleGRPCError (grpc_error c m) = http_Error m 500"
    by (simp add: handleGRPCError_grpc)
  show "handleGRPCError (other_error s) = http_Error ''internal server error'' 500"
    by (rule handleGRPCError_other)
  show "handleGRPCError nil_error = http_Error [] 500"
    by (rule handleGRPCError_nil)
  show "resp_status (http_Error m code) = code"
    and "resp_body (http_Error m code) = m @ [CHR 0x0A]"
    by (rule http_Error_fields)+
qed

text \<open>The theorem at the code \<^verbatim>\<open>Internal\<close>, which is not in the table, and at \<^verbatim>\<open>NotFound\<close>.\<close>

theorem grpc_error_translation_witness:
  "codes_Internal \<notin> {codes_NotFound, codes_InvalidArgument, codes_AlreadyExists,
             codes_PermissionDenied, codes_Unauthenticated, codes_FailedPrecondition,
             codes_Unimplemented, codes_Unavailable}
   \<and> handleGRPCError (grpc_error codes_Internal ''db down'') = http_Error ''db down'' 500
   \<and> handleGRPCError (grpc_error codes_NotFound ''no such user'') =
        http_Error ''no such user'' 404
   \<and> resp_status (http_Error ''no such user'' 404) = 404
   \<and> resp_body (http_Error ''no such user'' 404) = ''no such user'' @ [CHR 0x0A]"
proof -
  have other: "codes_Internal \<notin> {codes_NotFound, codes_InvalidArgument, codes_AlreadyExists,
             codes_PermissionDenied, codes_Unauthenticated, codes_FailedPrecondition,
             codes_Unimplemented, codes_Unavailable}"
    by (simp add: code_defs)
  from other show ?thesis
    using grpc_error_translation [where c = codes_Internal and m = "''db down''"]
      grpc_error_translation [where m = "''no such user''" and code = 404]
    by blast
qed

subsection \<open>C10: the request that is forwarded\<close>

text \<open>
  C10. The request handed to the reverse proxy is the inbound request with its URL path
  replaced and nothing else changed: method, query string, header and body are those of
  the inbound request, and the new path is the forward path of the parser, which for
  \<^verbatim>\<open>/api/<svc>/<rest>\<close> is \<^verbatim>\<open>/<rest>\<close>.
\<close>

theorem only_path_rewritten:
  "ProxyServeHTTP target r' \<in> set (snd (routeRequest env r)) \<longrightarrow>
     r' = r\<lparr>url_path := url_path r'\<rparr>
     \<and> req_method r' = req_method r \<and> raw_query r' = raw_query r
     \<and> req_header r' = req_header r \<and> req_body r' = req_body r
     \<and> (\<exists>name. parse (url_path r) = Inr (name, url_path r'))
     \<and> (CHR ''/'' \<notin> set svc \<and> url_path r = ''/api/'' @ svc @ ''/'' @ rest \<longrightarrow>
          url_path r' = ''/'' @ rest)"
proof
  assume "ProxyServeHTTP target r' \<in> set (snd (routeRequest env r))"
  from forwarded_request [OF this] obtain name fwd where
    p: "parse (url_path r) = Inr (name, fwd)" and r': "r' = r\<lparr>url_path := fwd\<rparr>"
    by blast
  have strip: "url_path r' = ''/'' @ rest"
    if "CHR ''/'' \<notin> set svc" "url_path r = ''/api/'' @ svc @ ''/'' @ rest"
    using that p r' parse_accepts(1) [of svc rest] by simp
  from p r' strip show "r' = r\<lparr>url_path := url_path r'\<rparr>
     \<and> req_method r' = req_method r \<and> raw_query r' = raw_query r
     \<and> req_header r' = req_header r \<and> req_body r' = req_body r
     \<and> (\<exists>name. parse (url_path r) = Inr (name, url_path r'))
     \<and> (CHR ''/'' \<notin> set svc \<and> url_path r = ''/api/'' @ svc @ ''/'' @ rest \<longrightarrow>
          url_path r' = ''/'' @ rest)"
    by simp
qed

text \<open>The theorem on a \<^verbatim>\<open>POST\<close> with a query string, a header and a body.\<close>

theorem only_path_rewritten_witness:
  "ProxyServeHTTP ''http://node1:8081'' (post_request\<lparr>url_path := ''/42''\<rparr>)
     \<in> set (snd (routeRequest demo_env post_request))
   \<and> CHR ''/'' \<notin> set ''users''
   \<and> url_path post_request = ''/api/users/42''
   \<and> req_method (post_request\<lparr>url_path := ''/42''\<rparr>) = req_method post_request
   \<and> raw_query (post_request\<lparr>url_path := ''/42''\<rparr>) = raw_query post_request
   \<and> req_header (post_request\<lparr>url_path := ''/42''\<rparr>) = req_header post_request
   \<and> req_body (post_request\<lparr>url_path := ''/42''\<rparr>) = req_body post_request
   \<and> url_path (post_request\<lparr>url_path := ''/42''\<rparr>) = ''/'' @ ''42''"
proof -
  have p: "parse (url_path post_request) = Inr (''users-service'', ''/42'')"
    by (simp add: post_request_def parse_users42)
  have d: "fst (discoverService demo_env ''users-service'') = Inr ''http://node1:8081''"
    by (simp add: demo_users)
  have sent: "ProxyServeHTTP ''http://node1:8081'' (post_request\<lparr>url_path := ''/42''\<rparr>)
     \<in> set (snd (routeRequest demo_env post_request))"
    by (simp add: routeRequest_forward [OF p d])
  have form: "CHR ''/'' \<notin> set ''users'' \<and> url_path post_request = ''/api/'' @ ''users'' @ ''/'' @ ''42''"
    by (simp add: post_request_def)
  from sent form show ?thesis
    using only_path_rewritten [where target = "''http://node1:8081''"
        and r' = "post_request\<lparr>url_path := ''/42''\<rparr>" and env = demo_env
        and r = post_request and svc = "''users''" and rest = "''42''"]
    by (simp add: post_request_def)
qed

end
